theory Spec2Isabelle
  imports Main "HOL-Library.AList"
begin

section \<open>Configuration objects (extension.ts, plugin.ts)\<close>

text \<open>
  The three JSON interfaces of the source. An optional field is an \<open>option\<close>
  (\<open>None\<close> is JavaScript's \<open>undefined\<close>: the object has no such own property).
  The \<open>config?: any\<close> payload of an extension is never inspected by the engine; it is
  an opaque token.
\<close>

record IExtensionJSON =
  ext_point :: string
  ext_loader :: "string option"
  ext_data :: "string option"
  ext_config :: "nat option"
  ext_module :: "string option"
  ext_initializer :: "string option"

record IExtensionPointJSON =
  pt_id :: string
  pt_receiver :: string
  pt_module :: "string option"
  pt_initializer :: "string option"

record IPluginJSON =
  pl_module :: "string option"
  pl_initializer :: "string option"
  pl_extensionPoints :: "IExtensionPointJSON list option"
  pl_extensions :: "IExtensionJSON list option"

text \<open>JavaScript truthiness of an optional string: \<open>undefined\<close> and \<open>''\<close> are falsy.\<close>

definition truthy :: "string option \<Rightarrow> bool" where
  "truthy s = (case s of None \<Rightarrow> False | Some x \<Rightarrow> x \<noteq> [])"

text \<open>String concatenation with a possibly undefined operand: \<open>'' + undefined\<close> is \<open>'undefined'\<close>.\<close>

definition js_str :: "string option \<Rightarrow> string" where
  "js_str s = (case s of None \<Rightarrow> ''undefined'' | Some x \<Rightarrow> x)"

section \<open>JavaScript values\<close>

text \<open>
  The values that flow through the engine's promises and callbacks.
  \<^item> \<open>VForeign n d\<close>: an object made by user code (a disposable, a contribution object,
    loaded JSON data), with identity \<open>n\<close>; \<open>d\<close> says whether it has an own property
    \<open>dispose\<close>.
  \<^item> \<open>VModule ms\<close>: what \<open>System.import\<close> resolves to, its exported members by name.
  \<^item> \<open>VFunction b\<close>: a function of user code; \<open>b\<close> is what a call does: return a value,
    throw, or return a fresh promise that the outside world settles later.
  \<^item> \<open>VPoint\<close>, \<open>VExt\<close>: references to \<open>ExtensionPoint\<close> and \<open>Extension\<close> instances
    (addresses in the store).
  \<^item> \<open>VContribution c d obj\<close>: the \<open>IExtension\<close> object \<open>{config, data, object}\<close>.
  \<^item> \<open>VBoundInitialize pl\<close>: the function \<open>this._initialize.bind(this)\<close> of plugin \<open>pl\<close>.
  \<^item> \<open>VPackageJson main cfg\<close>: a parsed \<open>package.json\<close>, its \<open>main\<close> field and its
    \<open>phosphor-plugin\<close> field.
  \<^item> \<open>VArray\<close>: the array a \<open>Promise.all\<close> resolves to (its content is never read).
\<close>

datatype val =
    VUndefined
  | VNull
  | VError string
  | VForeign nat bool
  | VModule "(string \<times> val) list"
  | VFunction fn
  | VPromise nat
  | VArray
  | VPoint nat
  | VExt nat
  | VContribution "nat option" val val
  | VBoundInitialize nat
  | VPackageJson "string option" "IPluginJSON option"
and fn = Returns val | Throws val | Async

abbreviation TypeError :: val where
  "TypeError \<equiv> VError ''TypeError''"

text \<open>\<open>mod[name]\<close>: reading a property of \<open>undefined\<close> or \<open>null\<close> throws.\<close>

fun get_member :: "val \<Rightarrow> string \<Rightarrow> val + val" where
  "get_member VUndefined n = Inl TypeError"
| "get_member VNull n = Inl TypeError"
| "get_member (VModule ms) n = Inr (case map_of ms n of None \<Rightarrow> VUndefined | Some v \<Rightarrow> v)"
| "get_member v n = Inr VUndefined"

text \<open>\<open>f.bind(this)\<close>: only a function has \<open>bind\<close>.\<close>

fun js_bind :: "val \<Rightarrow> val + val" where
  "js_bind (VFunction b) = Inr (VFunction b)"
| "js_bind v = Inl TypeError"

text \<open>
  \<open>x.hasOwnProperty('dispose')\<close>. It throws on \<open>undefined\<close> and \<open>null\<close>. The
  classes of the engine declare \<open>dispose\<close> as a method, which lives on the prototype, so
  an instance has no own property of that name.
\<close>

fun hasOwnProperty_dispose :: "val \<Rightarrow> val + bool" where
  "hasOwnProperty_dispose VUndefined = Inl TypeError"
| "hasOwnProperty_dispose VNull = Inl TypeError"
| "hasOwnProperty_dispose (VForeign n d) = Inr d"
| "hasOwnProperty_dispose (VModule ms) = Inr (map_of ms ''dispose'' \<noteq> None)"
| "hasOwnProperty_dispose v = Inr False"

section \<open>The objects of the engine\<close>

text \<open>
  Modelled from the spec: \<open>DisposableSet\<close> of the package \<open>phosphor-disposable\<close>, which is
  imported and not part of the repository: an ordered collection of cleanup handles that
  can be disposed exactly once.
\<close>

record DisposableSet =
  ds_items :: "val list"
  ds_isDisposed :: bool

definition DisposableSet_new :: DisposableSet where
  "DisposableSet_new = \<lparr>ds_items = [], ds_isDisposed = False\<rparr>"

definition DisposableSet_add :: "val \<Rightarrow> DisposableSet \<Rightarrow> DisposableSet" where
  "DisposableSet_add v ds = ds\<lparr>ds_items := ds_items ds @ [v]\<rparr>"

record ExtensionPoint =
  p_id :: string
  p_receiver :: string
  p_module :: "string option"
  p_initializer :: "string option"
  p_initialized :: bool
  p_receiverFunc :: val
  p_disposables :: DisposableSet

record Extension =
  e_point :: string
  e_loader :: "string option"
  e_module :: "string option"
  e_data :: "string option"
  e_initializer :: "string option"
  e_extension :: val
  e_disposables :: DisposableSet

record Plugin =
  g_name :: string
  g_module :: string
  g_initializer :: "string option"
  g_extensionPoints :: "IExtensionPointJSON list option"
  g_extensions :: "IExtensionJSON list option"
  g_disposables :: DisposableSet

text \<open>The constructors.\<close>

definition ExtensionPoint_new :: "IExtensionPointJSON \<Rightarrow> ExtensionPoint" where
  "ExtensionPoint_new options =
     \<lparr>p_id = pt_id options, p_receiver = pt_receiver options, p_module = pt_module options,
      p_initializer = pt_initializer options, p_initialized = False, p_receiverFunc = VNull,
      p_disposables = DisposableSet_new\<rparr>"

definition Extension_new :: "IExtensionJSON \<Rightarrow> Extension" where
  "Extension_new options =
     \<lparr>e_point = ext_point options, e_loader = ext_loader options, e_module = ext_module options,
      e_data = ext_data options, e_initializer = ext_initializer options,
      e_extension = VContribution (ext_config options) VUndefined VUndefined,
      e_disposables = DisposableSet_new\<rparr>"

definition Plugin_new :: "string \<Rightarrow> IPluginJSON \<Rightarrow> Plugin" where
  "Plugin_new name options =
     \<lparr>g_name = name, g_module = name @ ''/'' @ js_str (pl_module options),
      g_initializer = pl_initializer options,
      g_extensionPoints = pl_extensionPoints options,
      g_extensions = pl_extensions options,
      g_disposables = DisposableSet_new\<rparr>"

section \<open>Promises\<close>

text \<open>
  Every arrow function that the source passes to \<open>then\<close> or \<open>catch\<close> is one constructor
  of \<open>kont\<close>, carrying the variables the closure captures. \<open>run_kont\<close> below is its body.
\<close>

datatype kont =
    K_connect nat nat
  | K_load nat
  | K_initialize_mod nat
  | K_initialize_result nat
  | K_connectExtension nat val nat
  | K_ext_initialize_mod nat
  | K_ext_initialize_result nat
  | K_ext_load nat
  | K_loadData nat
  | K_loadObject_mod nat
  | K_loadObject_result nat
  | K_return val
  | K_plugin_load nat
  | K_plugin_result nat
  | K_console_error
  | K_plugin_initialize_mod nat
  | K_gatherPlugins
  | K_unit
  | K_addPackage string

datatype pstate = Pending | Fulfilled val | Rejected val

text \<open>
  A reaction waits on a promise: \<open>Then f r d\<close> is \<open>p.then(f, r)\<close> with derived promise
  \<open>d\<close> (\<open>p.catch(r)\<close> is \<open>Then None (Some r) d\<close>); \<open>AllElem d\<close> is one input of the
  \<open>Promise.all\<close> whose result is \<open>d\<close>; \<open>Adopt d\<close> makes \<open>d\<close> follow a promise that a
  callback returned.
\<close>

datatype reaction = Then "kont option" "kont option" nat | AllElem nat | Adopt nat

record promise =
  pstate :: pstate
  remaining :: nat
  external :: bool

text \<open>
  What the engine can be observed to do: the module loader is asked for a path, user
  code is called, the console is written to, a disposable is disposed. \<open>Connecting p e\<close>
  is the entry of \<open>ExtensionPoint.connect\<close> (where the source logs
  \<open>'connecting to'\<close> and the point's id), for point \<open>p\<close> and extension \<open>e\<close>.
\<close>

datatype call_site =
    PointInitializer nat
  | Receiver nat val
  | ExtInitializer nat
  | Loader nat
  | PluginInitializer nat

datatype event =
    Import "string option"
  | SystemDelete string
  | Connecting nat nat
  | Called call_site
  | ConsoleError val
  | Disposed val

record npm_package =
  npm_name :: string
  npm_fileUrl :: string

text \<open>
  The state of the program: the promises and the reactions waiting on them, the store of
  instances (an address is an index), the four module-level maps of the source (as
  association lists: a JavaScript \<open>Map\<close> and an object keep insertion order), the
  table \<open>System.npm\<close> and the global variable \<open>name\<close> that \<open>getPluginNames\<close> reads,
  and the trace of observable events.
\<close>

record state =
  promises :: "promise list"
  pool :: "(nat \<times> reaction) list"
  points :: "ExtensionPoint list"
  exts :: "Extension list"
  plugins :: "Plugin list"
  allExtensionPoints :: "(string \<times> nat) list"
  allExtensions :: "(string \<times> nat list) list"
  availablePlugins :: "(string \<times> nat) list"
  loadedPlugins :: "(string \<times> nat) list"
  System_npm :: "(string \<times> npm_package) list"
  global_name :: string
  trace :: "event list"

definition init :: "(string \<times> npm_package) list \<Rightarrow> string \<Rightarrow> state" where
  "init npm gname =
     \<lparr>promises = [], pool = [], points = [], exts = [], plugins = [],
      allExtensionPoints = [], allExtensions = [], availablePlugins = [], loadedPlugins = [],
      System_npm = npm, global_name = gname, trace = []\<rparr>"

definition emit :: "event \<Rightarrow> state \<Rightarrow> state" where
  "emit ev st = st\<lparr>trace := trace st @ [ev]\<rparr>"

definition new_promise :: "pstate \<Rightarrow> nat \<Rightarrow> bool \<Rightarrow> state \<Rightarrow> nat \<times> state" where
  "new_promise ps n ext st =
     (length (promises st),
      st\<lparr>promises := promises st @ [\<lparr>pstate = ps, remaining = n, external = ext\<rparr>]\<rparr>)"

text \<open>\<open>Promise.resolve(v)\<close> for a value that is not a promise.\<close>

definition Promise_resolve :: "val \<Rightarrow> state \<Rightarrow> nat \<times> state" where
  "Promise_resolve v st = new_promise (Fulfilled v) 0 False st"

text \<open>\<open>System.import(path)\<close>: a promise that the module loader settles later.\<close>

definition System_import :: "string option \<Rightarrow> state \<Rightarrow> nat \<times> state" where
  "System_import path st = new_promise Pending 0 True (emit (Import path) st)"

definition promise_then :: "nat \<Rightarrow> kont option \<Rightarrow> kont option \<Rightarrow> state \<Rightarrow> nat \<times> state" where
  "promise_then p f r st =
     (let (d, st1) = new_promise Pending 0 False st
      in (d, st1\<lparr>pool := pool st1 @ [(p, Then f r d)]\<rparr>))"

text \<open>\<open>Promise.all(ps)\<close>: fulfilled at once when \<open>ps\<close> is empty.\<close>

definition Promise_all :: "nat list \<Rightarrow> state \<Rightarrow> nat \<times> state" where
  "Promise_all ps st =
     (let (d, st1) = new_promise (if ps = [] then Fulfilled VArray else Pending) (length ps) False st
      in (d, st1\<lparr>pool := pool st1 @ map (\<lambda>p. (p, AllElem d)) ps\<rparr>))"

text \<open>A promise is settled once: settling a promise that is not pending does nothing.\<close>

definition settle :: "nat \<Rightarrow> pstate \<Rightarrow> state \<Rightarrow> state" where
  "settle p out st =
     (if p < length (promises st) \<and> pstate (promises st ! p) = Pending
      then st\<lparr>promises := (promises st)[p := (promises st ! p)\<lparr>pstate := out\<rparr>]\<rparr>
      else st)"

text \<open>Resolving with a promise makes the resolved promise follow it.\<close>

definition resolve_with :: "nat \<Rightarrow> val \<Rightarrow> state \<Rightarrow> state" where
  "resolve_with d v st =
     (case v of VPromise q \<Rightarrow> st\<lparr>pool := pool st @ [(q, Adopt d)]\<rparr>
      | _ \<Rightarrow> settle d (Fulfilled v) st)"

text \<open>Calling a value: only a function can be called; the call is an observable event.\<close>

definition js_call :: "call_site \<Rightarrow> val \<Rightarrow> state \<Rightarrow> (val + val) \<times> state" where
  "js_call site f st =
     (case f of
        VFunction b \<Rightarrow>
          (let st1 = emit (Called site) st in
           case b of
             Returns v \<Rightarrow> (Inr v, st1)
           | Throws e \<Rightarrow> (Inl e, st1)
           | Async \<Rightarrow> (let (p, st2) = new_promise Pending 0 True st1 in (Inr (VPromise p), st2)))
      | _ \<Rightarrow> (Inl TypeError, st))"

text \<open>\<open>x.then(cb)\<close> on the value a user function returned: it must be a promise.\<close>

definition then_val :: "val \<Rightarrow> kont \<Rightarrow> state \<Rightarrow> (val + val) \<times> state" where
  "then_val x k st =
     (case x of
        VPromise q \<Rightarrow> (let (d, st1) = promise_then q (Some k) None st in (Inr (VPromise d), st1))
      | _ \<Rightarrow> (Inl TypeError, st))"

definition upd_point :: "nat \<Rightarrow> (ExtensionPoint \<Rightarrow> ExtensionPoint) \<Rightarrow> state \<Rightarrow> state" where
  "upd_point p f st = st\<lparr>points := (points st)[p := f (points st ! p)]\<rparr>"

definition upd_ext :: "nat \<Rightarrow> (Extension \<Rightarrow> Extension) \<Rightarrow> state \<Rightarrow> state" where
  "upd_ext e f st = st\<lparr>exts := (exts st)[e := f (exts st ! e)]\<rparr>"

definition upd_plugin :: "nat \<Rightarrow> (Plugin \<Rightarrow> Plugin) \<Rightarrow> state \<Rightarrow> state" where
  "upd_plugin g f st = st\<lparr>plugins := (plugins st)[g := f (plugins st ! g)]\<rparr>"

section \<open>extension.ts\<close>

subsection \<open>Extension\<close>

definition Extension_initialize :: "nat \<Rightarrow> state \<Rightarrow> nat \<times> state" where
  "Extension_initialize e st =
     (let st1 = upd_ext e (\<lambda>x. x\<lparr>e_extension := VNull\<rparr>) st in
      if truthy (e_initializer (exts st1 ! e))
      then (let (i, st2) = System_import (e_module (exts st1 ! e)) st1
            in promise_then i (Some (K_ext_initialize_mod e)) None st2)
      else Promise_resolve VUndefined st1)"

definition Extension_loadData :: "nat \<Rightarrow> state \<Rightarrow> nat \<times> state" where
  "Extension_loadData e st =
     (if \<not> truthy (e_data (exts st ! e)) then Promise_resolve VUndefined st
      else (let (i, st1) = System_import (e_data (exts st ! e)) st
            in promise_then i (Some (K_loadData e)) None st1))"

definition Extension_loadObject :: "nat \<Rightarrow> state \<Rightarrow> nat \<times> state" where
  "Extension_loadObject e st =
     (if \<not> truthy (e_loader (exts st ! e)) then Promise_resolve VUndefined st
      else (let (i, st1) = System_import (e_module (exts st ! e)) st
            in promise_then i (Some (K_loadObject_mod e)) None st1))"

definition Extension_load :: "nat \<Rightarrow> state \<Rightarrow> nat \<times> state" where
  "Extension_load e st =
     (let (d, st1) = Extension_loadData e st;
          (obj, st2) = Extension_loadObject e st1;
          (a, st3) = Promise_all [d, obj] st2
      in promise_then a (Some (K_ext_load e)) None st3)"

subsection \<open>ExtensionPoint\<close>

definition ExtensionPoint_initialize :: "nat \<Rightarrow> state \<Rightarrow> nat \<times> state" where
  "ExtensionPoint_initialize p st =
     (if p_initialized (points st ! p) \<or> \<not> truthy (p_initializer (points st ! p))
      then Promise_resolve VUndefined (upd_point p (\<lambda>x. x\<lparr>p_initialized := True\<rparr>) st)
      else (let st1 = upd_point p (\<lambda>x. x\<lparr>p_initialized := True\<rparr>) st;
                (i, st2) = System_import (p_module (points st1 ! p)) st1
            in promise_then i (Some (K_initialize_mod p)) None st2))"

definition ExtensionPoint_load :: "nat \<Rightarrow> state \<Rightarrow> nat \<times> state" where
  "ExtensionPoint_load p st =
     (let (i, st1) = System_import (p_module (points st ! p)) st
      in promise_then i (Some (K_load p)) None st1)"

definition ExtensionPoint_connectExtension :: "nat \<Rightarrow> nat \<Rightarrow> state \<Rightarrow> nat \<times> state" where
  "ExtensionPoint_connectExtension p e st =
     (let receiver = p_receiverFunc (points st ! p);
          (l, st1) = Extension_load e st
      in promise_then l (Some (K_connectExtension p receiver e)) None st1)"

definition ExtensionPoint_connect :: "nat \<Rightarrow> nat \<Rightarrow> state \<Rightarrow> nat \<times> state" where
  "ExtensionPoint_connect p e st =
     (let st1 = emit (Connecting p e) st in
      if \<not> p_initialized (points st1 ! p)
      then (let (l, st2) = ExtensionPoint_load p st1
            in promise_then l (Some (K_connect p e)) None st2)
      else ExtensionPoint_connectExtension p e st1)"

subsection \<open>The two registration functions\<close>

text \<open>\<open>extensions.map(ext => { promises.push(point.connect(ext)); })\<close>\<close>

fun connect_each :: "nat \<Rightarrow> nat list \<Rightarrow> state \<Rightarrow> nat list \<times> state" where
  "connect_each p [] st = ([], st)"
| "connect_each p (e # es) st =
     (let (c, st1) = ExtensionPoint_connect p e st;
          (cs, st2) = connect_each p es st1
      in (c # cs, st2))"

definition loadExtensionPoint :: "IExtensionPointJSON \<Rightarrow> state \<Rightarrow> nat \<times> state" where
  "loadExtensionPoint config st =
     (let point = length (points st);
          st1 = st\<lparr>points := points st @ [ExtensionPoint_new config]\<rparr>;
          st2 = st1\<lparr>allExtensionPoints := AList.update (pt_id config) point (allExtensionPoints st1)\<rparr>
      in case map_of (allExtensions st2) (pt_id config) of
           None \<Rightarrow> Promise_resolve (VPoint point) st2
         | Some extensions \<Rightarrow>
             (let st3 = st2\<lparr>allExtensions := AList.delete (pt_id config) (allExtensions st2)\<rparr>;
                  (promises, st4) = connect_each point extensions st3;
                  (a, st5) = Promise_all promises st4
              in promise_then a (Some (K_return (VPoint point))) None st5))"

definition loadExtension :: "IExtensionJSON \<Rightarrow> state \<Rightarrow> nat \<times> state" where
  "loadExtension config st =
     (let extension = length (exts st);
          st1 = st\<lparr>exts := exts st @ [Extension_new config]\<rparr>
      in case map_of (allExtensionPoints st1) (ext_point config) of
           Some point \<Rightarrow>
             (let (c, st2) = ExtensionPoint_connect point extension st1
              in promise_then c (Some (K_return (VExt extension))) None st2)
         | None \<Rightarrow>
             (let extensions = (case map_of (allExtensions st1) (ext_point config) of
                                  Some xs \<Rightarrow> xs | None \<Rightarrow> []);
                  st2 = st1\<lparr>allExtensions :=
                          AList.update (ext_point config) (extensions @ [extension]) (allExtensions st1)\<rparr>
              in Promise_resolve (VExt extension) st2))"

section \<open>plugin.ts\<close>

subsection \<open>Plugin\<close>

text \<open>
  \<open>_loadExtensionPoint\<close> and \<open>_loadExtension\<close> rewrite the \<open>module\<close> (and \<open>data\<close>)
  field of the configuration object they are given, which is the object held in the
  plugin's list: the model writes the rewritten object back at its index \<open>i\<close>.
\<close>

definition Plugin_loadExtensionPoint ::
    "nat \<Rightarrow> nat \<Rightarrow> IExtensionPointJSON \<Rightarrow> state \<Rightarrow> nat \<times> state" where
  "Plugin_loadExtensionPoint g i point st =
     (let this = plugins st ! g;
          point1 = point\<lparr>pt_module := Some (if pt_module point \<noteq> None
                      then g_name this @ ''/'' @ js_str (pt_module point) else g_module this)\<rparr>;
          st1 = upd_plugin g (\<lambda>x. x\<lparr>g_extensionPoints :=
                   map_option (\<lambda>l. l[i := point1]) (g_extensionPoints x)\<rparr>) st;
          (r, st2) = loadExtensionPoint point1 st1;
          (t, st3) = promise_then r (Some (K_plugin_result g)) None st2
      in promise_then t None (Some K_console_error) st3)"

definition Plugin_loadExtension ::
    "nat \<Rightarrow> nat \<Rightarrow> IExtensionJSON \<Rightarrow> state \<Rightarrow> nat \<times> state" where
  "Plugin_loadExtension g i extension st =
     (let this = plugins st ! g;
          extension1 = extension\<lparr>ext_module := Some (if ext_module extension \<noteq> None
                      then g_name this @ ''/'' @ js_str (ext_module extension) else g_module this)\<rparr>;
          extension2 = (if ext_data extension1 \<noteq> None
                      then extension1\<lparr>ext_data := Some (g_name this @ ''/'' @ js_str (ext_data extension1))\<rparr>
                      else extension1);
          st1 = upd_plugin g (\<lambda>x. x\<lparr>g_extensions :=
                   map_option (\<lambda>l. l[i := extension2]) (g_extensions x)\<rparr>) st;
          (r, st2) = loadExtension extension2 st1;
          (t, st3) = promise_then r (Some (K_plugin_result g)) None st2
      in promise_then t None (Some K_console_error) st3)"

text \<open>The two \<open>map\<close> loops of \<open>Plugin.load\<close>, pushing one promise per entry.\<close>

fun Plugin_loadExtensionPoints ::
    "nat \<Rightarrow> nat \<Rightarrow> IExtensionPointJSON list \<Rightarrow> state \<Rightarrow> nat list \<times> state" where
  "Plugin_loadExtensionPoints g i [] st = ([], st)"
| "Plugin_loadExtensionPoints g i (point # rest) st =
     (let (r, st1) = Plugin_loadExtensionPoint g i point st;
          (rs, st2) = Plugin_loadExtensionPoints g (Suc i) rest st1
      in (r # rs, st2))"

fun Plugin_loadExtensions ::
    "nat \<Rightarrow> nat \<Rightarrow> IExtensionJSON list \<Rightarrow> state \<Rightarrow> nat list \<times> state" where
  "Plugin_loadExtensions g i [] st = ([], st)"
| "Plugin_loadExtensions g i (ext # rest) st =
     (let (r, st1) = Plugin_loadExtension g i ext st;
          (rs, st2) = Plugin_loadExtensions g (Suc i) rest st1
      in (r # rs, st2))"

text \<open>
  \<open>Plugin.load\<close>. Its last line is
  \<open>Promise.all(promises).then(() => this._initialize.bind(this))\<close>: the callback
  \<open>K_plugin_load\<close> returns the bound function; it does not call it.
\<close>

definition Plugin_load :: "nat \<Rightarrow> state \<Rightarrow> nat \<times> state" where
  "Plugin_load g st =
     (let (ps1, st1) = (case g_extensionPoints (plugins st ! g) of
                          None \<Rightarrow> ([], st)
                        | Some l \<Rightarrow> Plugin_loadExtensionPoints g 0 l st);
          (ps2, st2) = (case g_extensions (plugins st1 ! g) of
                          None \<Rightarrow> ([], st1)
                        | Some l \<Rightarrow> Plugin_loadExtensions g 0 l st1);
          (a, st3) = Promise_all (ps1 @ ps2) st2
      in promise_then a (Some (K_plugin_load g)) None st3)"

definition Plugin_initialize :: "nat \<Rightarrow> state \<Rightarrow> nat \<times> state" where
  "Plugin_initialize g st =
     (let st1 = upd_plugin g (\<lambda>x. x\<lparr>g_extensionPoints := Some [], g_extensions := Some []\<rparr>) st in
      if truthy (g_initializer (plugins st1 ! g))
      then (let (i, st2) = System_import (Some (g_module (plugins st1 ! g))) st1;
                (t, st3) = promise_then i (Some (K_plugin_initialize_mod g)) None st2
            in promise_then t None (Some K_console_error) st3)
      else Promise_resolve VUndefined st1)"

text \<open>
  Modelled from the spec: \<open>DisposableSet.dispose\<close> of \<open>phosphor-disposable\<close> (not part of
  the repository): the first call disposes every member in order, a later call does nothing.
\<close>

definition DisposableSet_dispose :: "DisposableSet \<Rightarrow> event list \<times> DisposableSet" where
  "DisposableSet_dispose ds =
     (if ds_isDisposed ds then ([], ds)
      else (map Disposed (ds_items ds), \<lparr>ds_items = [], ds_isDisposed = True\<rparr>))"

definition Plugin_dispose :: "nat \<Rightarrow> state \<Rightarrow> state" where
  "Plugin_dispose g st =
     (let st1 = upd_plugin g (\<lambda>x. x\<lparr>g_extensions := None, g_extensionPoints := None\<rparr>) st;
          (evs, ds) = DisposableSet_dispose (g_disposables (plugins st1 ! g));
          st2 = upd_plugin g (\<lambda>x. x\<lparr>g_disposables := ds\<rparr>) st1
      in st2\<lparr>trace := trace st2 @ evs\<rparr>)"

subsection \<open>The plugin manager\<close>

text \<open>\<open>String.prototype.indexOf\<close> and \<open>lastIndexOf\<close>: \<open>-1\<close> when there is no occurrence.\<close>

fun indexOf :: "string \<Rightarrow> string \<Rightarrow> int" where
  "indexOf [] pat = (if pat = [] then 0 else -1)"
| "indexOf (c # cs) pat =
     (if take (length pat) (c # cs) = pat then 0
      else (let r = indexOf cs pat in if r < 0 then -1 else r + 1))"

fun lastIndexOf :: "string \<Rightarrow> string \<Rightarrow> int" where
  "lastIndexOf [] pat = (if pat = [] then 0 else -1)"
| "lastIndexOf (c # cs) pat =
     (let r = lastIndexOf cs pat in
      if 0 \<le> r then r + 1
      else if take (length pat) (c # cs) = pat then 0 else -1)"

definition listPlugins :: "state \<Rightarrow> string list" where
  "listPlugins st = map fst (availablePlugins st)"

text \<open>
  The loop of \<open>getPluginNames\<close> over \<open>Object.keys(System.npm)\<close>. The callback's parameter
  is \<open>key\<close>; the test \<open>(name in availablePlugins) || (name in loadedPlugins)\<close> reads
  \<open>name\<close>, which is not a variable of the function: it is the global of that name.
\<close>

fun getPluginNames_loop ::
    "state \<Rightarrow> (string \<times> npm_package) list \<Rightarrow> string list \<Rightarrow> string list" where
  "getPluginNames_loop st [] names = names"
| "getPluginNames_loop st ((key, obj) # rest) names =
     (if map_of (availablePlugins st) (global_name st) \<noteq> None
         \<or> map_of (loadedPlugins st) (global_name st) \<noteq> None
      then getPluginNames_loop st rest names
      else (let fileUrl = npm_fileUrl obj;
                index = indexOf fileUrl ''node_modules'';
                lastIndex = lastIndexOf fileUrl ''node_modules''
            in if 0 < index \<and> index = lastIndex
               then getPluginNames_loop st rest (names @ [npm_name obj])
               else getPluginNames_loop st rest names))"

definition getPluginNames :: "state \<Rightarrow> string list" where
  "getPluginNames st = getPluginNames_loop st (System_npm st) []"

definition loadPackage :: "string \<Rightarrow> state \<Rightarrow> nat \<times> state" where
  "loadPackage name st =
     (let (i, st1) = System_import (Some (name @ ''/package.json'')) st;
          (t, st2) = promise_then i (Some (K_addPackage name)) None st1
      in promise_then t None (Some K_console_error) st2)"

fun loadPackage_each :: "string list \<Rightarrow> state \<Rightarrow> nat list \<times> state" where
  "loadPackage_each [] st = ([], st)"
| "loadPackage_each (name # rest) st =
     (let (r, st1) = loadPackage name st;
          (rs, st2) = loadPackage_each rest st1
      in (r # rs, st2))"

definition gatherPlugins :: "state \<Rightarrow> nat \<times> state" where
  "gatherPlugins st =
     (let (ps, st1) = loadPackage_each (getPluginNames st) st;
          (a, st2) = Promise_all ps st1
      in promise_then a (Some K_unit) None st2)"

definition fetchPlugins :: "state \<Rightarrow> nat \<times> state" where
  "fetchPlugins st =
     (if availablePlugins st \<noteq> []
      then (let st1 = emit (SystemDelete ''package.json!npm'') st;
                (i, st2) = System_import (Some ''package.json!npm'') st1
            in promise_then i (Some K_gatherPlugins) None st2)
      else gatherPlugins (st\<lparr>availablePlugins := []\<rparr>))"

text \<open>\<open>addPackage\<close>: \<open>Inl\<close> is a thrown value.\<close>

definition addPackage :: "string \<Rightarrow> val \<Rightarrow> state \<Rightarrow> (val + val) \<times> state" where
  "addPackage name config st =
     (case config of
        VUndefined \<Rightarrow> (Inl TypeError, st)
      | VNull \<Rightarrow> (Inl TypeError, st)
      | VPackageJson main (Some pconfig) \<Rightarrow>
          (let pconfig1 = pconfig\<lparr>pl_module := (if truthy (pl_module pconfig)
                                                  then pl_module pconfig else main)\<rparr>;
               g = length (plugins st);
               st1 = st\<lparr>plugins := plugins st @ [Plugin_new name pconfig1]\<rparr>
           in (Inr VUndefined, st1\<lparr>availablePlugins := AList.update name g (availablePlugins st1)\<rparr>))
      | _ \<Rightarrow> (Inr VUndefined, st))"

text \<open>\<open>loadPlugin\<close>: \<open>Inl\<close> is the thrown \<open>Error('Plugin not in registry')\<close>.\<close>

definition loadPlugin :: "string \<Rightarrow> state \<Rightarrow> (val + nat) \<times> state" where
  "loadPlugin name st =
     (case map_of (availablePlugins st) name of
        None \<Rightarrow> (Inl (VError ''Plugin not in registry''), st)
      | Some plugin \<Rightarrow>
          (let st1 = st\<lparr>availablePlugins := AList.delete name (availablePlugins st)\<rparr>;
               st2 = st1\<lparr>loadedPlugins := AList.update name plugin (loadedPlugins st1)\<rparr>;
               (r, st3) = Plugin_load plugin st2
           in (Inr r, st3)))"

definition unloadPlugin :: "string \<Rightarrow> state \<Rightarrow> state" where
  "unloadPlugin name st =
     (case map_of (loadedPlugins st) name of
        None \<Rightarrow> st
      | Some plugin \<Rightarrow> Plugin_dispose plugin st)"

section \<open>The callbacks\<close>

text \<open>\<open>if (x.hasOwnProperty('dispose')) { this._disposables.add(x); }\<close>\<close>

definition add_if_disposable :: "val \<Rightarrow> DisposableSet \<Rightarrow> val + DisposableSet" where
  "add_if_disposable v ds =
     (case hasOwnProperty_dispose v of
        Inl err \<Rightarrow> Inl err
      | Inr b \<Rightarrow> Inr (if b then DisposableSet_add v ds else ds))"

text \<open>\<open>mod[name]().then(k)\<close>\<close>

definition call_member_then ::
    "call_site \<Rightarrow> val \<Rightarrow> string option \<Rightarrow> kont \<Rightarrow> state \<Rightarrow> (val + val) \<times> state" where
  "call_member_then site m name k st =
     (case get_member m (js_str name) of
        Inl err \<Rightarrow> (Inl err, st)
      | Inr f \<Rightarrow>
          (case js_call site f st of
             (Inl err, st1) \<Rightarrow> (Inl err, st1)
           | (Inr r, st1) \<Rightarrow> then_val r k st1))"

text \<open>
  The body of each callback: the value it is called with, the state before; the value it
  returns (\<open>Inr\<close>) or throws (\<open>Inl\<close>), the state after.
\<close>

fun run_kont :: "kont \<Rightarrow> val \<Rightarrow> state \<Rightarrow> (val + val) \<times> state" where
  "run_kont (K_connect p e) x st =
     (let (r, st1) = ExtensionPoint_connectExtension p e st in (Inr (VPromise r), st1))"
| "run_kont (K_load p) m st =
     (case get_member m (p_receiver (points st ! p)) of
        Inl err \<Rightarrow> (Inl err, st)
      | Inr f \<Rightarrow>
          (case js_bind f of
             Inl err \<Rightarrow> (Inl err, st)
           | Inr rf \<Rightarrow>
               (let st1 = upd_point p (\<lambda>x. x\<lparr>p_receiverFunc := rf\<rparr>) st;
                    (r, st2) = ExtensionPoint_initialize p st1
                in (Inr (VPromise r), st2))))"
| "run_kont (K_initialize_mod p) m st =
     call_member_then (PointInitializer p) m (p_initializer (points st ! p))
       (K_initialize_result p) st"
| "run_kont (K_initialize_result p) result st =
     (case add_if_disposable result (p_disposables (points st ! p)) of
        Inl err \<Rightarrow> (Inl err, st)
      | Inr ds \<Rightarrow> (Inr VUndefined, upd_point p (\<lambda>x. x\<lparr>p_disposables := ds\<rparr>) st))"
| "run_kont (K_connectExtension p receiver e) result st =
     (case js_call (Receiver p result) receiver st of
        (Inl err, st1) \<Rightarrow> (Inl err, st1)
      | (Inr disposable, st1) \<Rightarrow>
          (case add_if_disposable disposable (p_disposables (points st1 ! p)) of
             Inl err \<Rightarrow> (Inl err, st1)
           | Inr ds \<Rightarrow>
               (let st2 = upd_point p (\<lambda>x. x\<lparr>p_disposables := ds\<rparr>) st1;
                    (r, st3) = Extension_initialize e st2
                in (Inr (VPromise r), st3))))"
| "run_kont (K_ext_initialize_mod e) m st =
     call_member_then (ExtInitializer e) m (e_initializer (exts st ! e))
       (K_ext_initialize_result e) st"
| "run_kont (K_ext_initialize_result e) disposable st =
     (case add_if_disposable disposable (e_disposables (exts st ! e)) of
        Inl err \<Rightarrow> (Inl err, st)
      | Inr ds \<Rightarrow> (Inr VUndefined, upd_ext e (\<lambda>x. x\<lparr>e_disposables := ds\<rparr>) st))"
| "run_kont (K_ext_load e) x st = (Inr (e_extension (exts st ! e)), st)"
| "run_kont (K_loadData e) data st =
     (case e_extension (exts st ! e) of
        VContribution c d obj \<Rightarrow>
          (Inr VUndefined, upd_ext e (\<lambda>x. x\<lparr>e_extension := VContribution c data obj\<rparr>) st)
      | _ \<Rightarrow> (Inl TypeError, st))"
| "run_kont (K_loadObject_mod e) m st =
     call_member_then (Loader e) m (e_loader (exts st ! e)) (K_loadObject_result e) st"
| "run_kont (K_loadObject_result e) result st =
     (case e_extension (exts st ! e) of
        VContribution c d obj \<Rightarrow>
          (Inr VUndefined, upd_ext e (\<lambda>x. x\<lparr>e_extension := VContribution c d result\<rparr>) st)
      | _ \<Rightarrow> (Inl TypeError, st))"
| "run_kont (K_return v) x st = (Inr v, st)"
| "run_kont (K_plugin_load g) x st = (Inr (VBoundInitialize g), st)"
| "run_kont (K_plugin_result g) result st =
     (case add_if_disposable result (g_disposables (plugins st ! g)) of
        Inl err \<Rightarrow> (Inl err, st)
      | Inr ds \<Rightarrow> (Inr VUndefined, upd_plugin g (\<lambda>x. x\<lparr>g_disposables := ds\<rparr>) st))"
| "run_kont K_console_error err st = (Inr VUndefined, emit (ConsoleError err) st)"
| "run_kont (K_plugin_initialize_mod g) m st =
     (case get_member m (js_str (g_initializer (plugins st ! g))) of
        Inl err \<Rightarrow> (Inl err, st)
      | Inr initializer \<Rightarrow>
          (case js_call (PluginInitializer g) initializer st of
             (Inl err, st1) \<Rightarrow> (Inl err, st1)
           | (Inr disposable, st1) \<Rightarrow>
               (case add_if_disposable disposable (g_disposables (plugins st1 ! g)) of
                  Inl err \<Rightarrow> (Inl err, st1)
                | Inr ds \<Rightarrow> (Inr VUndefined, upd_plugin g (\<lambda>x. x\<lparr>g_disposables := ds\<rparr>) st1))))"
| "run_kont K_gatherPlugins x st =
     (let (r, st1) = gatherPlugins st in (Inr (VPromise r), st1))"
| "run_kont K_unit x st = (Inr VUndefined, st)"
| "run_kont (K_addPackage name) config st = addPackage name config st"

section \<open>Running the program\<close>

text \<open>A callback's result settles the derived promise.\<close>

definition finish :: "nat \<Rightarrow> (val + val) \<times> state \<Rightarrow> state" where
  "finish d res =
     (case res of
        (Inr v, st) \<Rightarrow> resolve_with d v st
      | (Inl err, st) \<Rightarrow> settle d (Rejected err) st)"

text \<open>
  One reaction, run with the outcome of the promise it waited on. A \<open>then\<close> without a
  handler for the outcome passes the outcome on to the derived promise.
\<close>

fun run_reaction :: "reaction \<Rightarrow> pstate \<Rightarrow> state \<Rightarrow> state" where
  "run_reaction r Pending st = st"
| "run_reaction (Then f r d) (Fulfilled v) st =
     (case f of None \<Rightarrow> settle d (Fulfilled v) st | Some k \<Rightarrow> finish d (run_kont k v st))"
| "run_reaction (Then f r d) (Rejected err) st =
     (case r of None \<Rightarrow> settle d (Rejected err) st | Some k \<Rightarrow> finish d (run_kont k err st))"
| "run_reaction (AllElem d) (Fulfilled v) st =
     (if d < length (promises st)
      then (let n = remaining (promises st ! d) - 1;
                st1 = st\<lparr>promises := (promises st)[d := (promises st ! d)\<lparr>remaining := n\<rparr>]\<rparr>
            in if n = 0 then settle d (Fulfilled VArray) st1 else st1)
      else st)"
| "run_reaction (AllElem d) (Rejected err) st = settle d (Rejected err) st"
| "run_reaction (Adopt d) out st = settle d out st"

text \<open>
  What can happen next: the outside world settles one of its promises (a
  \<open>System.import\<close> or a promise returned by user code), a reaction whose promise is
  settled runs (any of them: no order among ready reactions is assumed), or the client
  calls one of the exported functions. An action that is not enabled leaves the state as
  it is.
\<close>

datatype action =
    Settle nat pstate
  | RunReaction nat
  | Call_loadExtensionPoint IExtensionPointJSON
  | Call_loadExtension IExtensionJSON
  | Call_fetchPlugins
  | Call_loadPlugin string
  | Call_unloadPlugin string

fun exec :: "action \<Rightarrow> state \<Rightarrow> state" where
  "exec (Settle p out) st =
     (if p < length (promises st) \<and> external (promises st ! p) \<and> out \<noteq> Pending
      then settle p out st else st)"
| "exec (RunReaction i) st =
     (if i < length (pool st)
      then (case pool st ! i of
              (src, r) \<Rightarrow>
                if src < length (promises st) \<and> pstate (promises st ! src) \<noteq> Pending
                then run_reaction r (pstate (promises st ! src))
                       (st\<lparr>pool := take i (pool st) @ drop (Suc i) (pool st)\<rparr>)
                else st)
      else st)"
| "exec (Call_loadExtensionPoint config) st = snd (loadExtensionPoint config st)"
| "exec (Call_loadExtension config) st = snd (loadExtension config st)"
| "exec Call_fetchPlugins st = snd (fetchPlugins st)"
| "exec (Call_loadPlugin name) st = snd (loadPlugin name st)"
| "exec (Call_unloadPlugin name) st = unloadPlugin name st"

definition run :: "action list \<Rightarrow> state \<Rightarrow> state" where
  "run acts st = fold exec acts st"

text \<open>The callbacks that are waiting in the pool.\<close>

fun konts_of :: "reaction \<Rightarrow> kont list" where
  "konts_of (Then f r d) =
     (case f of None \<Rightarrow> [] | Some k \<Rightarrow> [k]) @ (case r of None \<Rightarrow> [] | Some k \<Rightarrow> [k])"
| "konts_of (AllElem d) = []"
| "konts_of (Adopt d) = []"

definition pending_konts :: "state \<Rightarrow> kont list" where
  "pending_konts st = concat (map (\<lambda>sr. konts_of (snd sr)) (pool st))"

text \<open>
  A deterministic schedule for the examples: \<open>drain n\<close> runs the oldest ready reaction,
  at most \<open>n\<close> times, until none is ready.
\<close>

definition ready :: "state \<Rightarrow> nat \<times> reaction \<Rightarrow> bool" where
  "ready st sr = (fst sr < length (promises st) \<and> pstate (promises st ! fst sr) \<noteq> Pending)"

fun first_ready :: "state \<Rightarrow> (nat \<times> reaction) list \<Rightarrow> nat \<Rightarrow> nat option" where
  "first_ready st [] i = None"
| "first_ready st (sr # rest) i = (if ready st sr then Some i else first_ready st rest (Suc i))"

fun drain :: "nat \<Rightarrow> state \<Rightarrow> state" where
  "drain 0 st = st"
| "drain (Suc n) st =
     (case first_ready st (pool st) 0 of
        None \<Rightarrow> st
      | Some i \<Rightarrow> drain n (exec (RunReaction i) st))"

section \<open>Example states\<close>


text \<open>
  A package \<open>foo\<close> found by the module loader, whose \<open>package.json\<close> declares a plugin;
  a first \<open>fetchPlugins\<close> run to completion, and a second one.
\<close>

definition foo_npm :: "(string \<times> npm_package) list" where
  "foo_npm = [(''foo@1'', \<lparr>npm_name = ''foo'', npm_fileUrl = ''a/node_modules/foo''\<rparr>)]"

definition foo_package :: val where
  "foo_package = VPackageJson (Some ''main.js'')
     (Some \<lparr>pl_module = None, pl_initializer = None,
            pl_extensionPoints = None, pl_extensions = None\<rparr>)"

definition fetched_once :: state where
  "fetched_once =
     drain 9 (exec (Settle 0 (Fulfilled foo_package)) (exec Call_fetchPlugins (init foo_npm [])))"

definition fetched_twice :: state where
  "fetched_twice =
     drain 9 (exec (Settle 7 (Fulfilled foo_package))
    (drain 9 (exec (Settle 5 (Fulfilled (VModule [])))
             (exec Call_fetchPlugins fetched_once))))"

text \<open>
  A plugin \<open>foo\<close> with an initializer, one extension point and one extension to that
  point, and its module. \<open>foo_loaded\<close> is the state after \<open>loadPlugin('foo')\<close> has run to
  completion with every resolution succeeding: the point's module (promise 3), the
  extension's module (promise 13) and the loader's promise (promise 18).
\<close>

definition foo_config :: IPluginJSON where
  "foo_config =
     \<lparr>pl_module = Some ''main'', pl_initializer = Some ''init'',
      pl_extensionPoints = Some [\<lparr>pt_id = ''foo:point'', pt_receiver = ''addItem'',
                                  pt_module = None, pt_initializer = None\<rparr>],
      pl_extensions = Some [\<lparr>ext_point = ''foo:point'', ext_loader = Some ''makeItem'',
                              ext_data = None, ext_config = None, ext_module = None,
                              ext_initializer = None\<rparr>]\<rparr>"

definition foo_module :: val where
  "foo_module = VModule [(''addItem'', VFunction (Returns (VForeign 1 True))),
                         (''makeItem'', VFunction Async),
                         (''init'', VFunction (Returns (VForeign 2 True)))]"

definition foo_available :: state where
  "foo_available =
     (init [] [])\<lparr>plugins := [Plugin_new ''foo'' foo_config], availablePlugins := [(''foo'', 0)]\<rparr>"

definition foo_loaded :: state where
  "foo_loaded =
     drain 20 (exec (Settle 18 (Fulfilled (VForeign 3 False)))
    (drain 20 (exec (Settle 13 (Fulfilled foo_module))
    (drain 20 (exec (Settle 3 (Fulfilled foo_module))
    (drain 20 (exec (Call_loadPlugin ''foo'') foo_available)))))))"

text \<open>
  One extension, registered while no point exists (it is extension 0 and waits in the
  queue; promise 0 is the resolved promise that \<open>loadExtension\<close> returned), and the runs
  of its \<open>load()\<close>: with the data resolved to \<open>v\<close>; with the module resolved to
  \<open>VModule ms\<close> and the loader's promise to \<open>w\<close>; with both, the object first.
\<close>

definition fresh_extension :: "IExtensionJSON \<Rightarrow> state" where
  "fresh_extension cfg = snd (loadExtension cfg (init [] []))"

definition load_data_only :: "IExtensionJSON \<Rightarrow> val \<Rightarrow> state" where
  "load_data_only cfg v =
     drain 9 (exec (Settle 1 (Fulfilled v)) (snd (Extension_load 0 (fresh_extension cfg))))"

definition load_loader_only :: "IExtensionJSON \<Rightarrow> (string \<times> val) list \<Rightarrow> val \<Rightarrow> state" where
  "load_loader_only cfg ms w =
     drain 9 (exec (Settle 6 (Fulfilled w))
    (drain 9 (exec (Settle 2 (Fulfilled (VModule ms)))
             (snd (Extension_load 0 (fresh_extension cfg))))))"

definition load_both :: "IExtensionJSON \<Rightarrow> (string \<times> val) list \<Rightarrow> val \<Rightarrow> val \<Rightarrow> state" where
  "load_both cfg ms v w =
     drain 9 (exec (Settle 1 (Fulfilled v))
    (drain 9 (exec (Settle 7 (Fulfilled w))
    (drain 9 (exec (Settle 3 (Fulfilled (VModule ms)))
             (snd (Extension_load 0 (fresh_extension cfg))))))))"

text \<open>
  The same extension after \<open>initialize()\<close>, and the runs of a \<open>load()\<close> made then: with
  nothing to resolve; with the data resolved to \<open>v\<close>; with the module resolved to
  \<open>VModule ms\<close> and the loader's promise to \<open>w\<close>.
\<close>

definition initialized_extension :: "IExtensionJSON \<Rightarrow> state" where
  "initialized_extension cfg = snd (Extension_initialize 0 (fresh_extension cfg))"

definition reload_plain :: "IExtensionJSON \<Rightarrow> state" where
  "reload_plain cfg = drain 9 (snd (Extension_load 0 (initialized_extension cfg)))"

definition reload_data :: "IExtensionJSON \<Rightarrow> val \<Rightarrow> state" where
  "reload_data cfg v =
     drain 9 (exec (Settle (length (promises (initialized_extension cfg))) (Fulfilled v))
                (snd (Extension_load 0 (initialized_extension cfg))))"

definition reload_loader :: "IExtensionJSON \<Rightarrow> (string \<times> val) list \<Rightarrow> val \<Rightarrow> state" where
  "reload_loader cfg ms w =
     drain 9 (exec (Settle (length (promises (initialized_extension cfg)) + 5) (Fulfilled w))
    (drain 9 (exec (Settle (length (promises (initialized_extension cfg)) + 1) (Fulfilled (VModule ms)))
                (snd (Extension_load 0 (initialized_extension cfg))))))"

definition data_config :: IExtensionJSON where
  "data_config = \<lparr>ext_point = ''foo:point'', ext_loader = None, ext_data = Some ''menu.json'',
     ext_config = None, ext_module = Some ''bar/main'', ext_initializer = None\<rparr>"

definition loader_config :: IExtensionJSON where
  "loader_config = \<lparr>ext_point = ''foo:point'', ext_loader = Some ''makeItem'', ext_data = None,
     ext_config = Some 7, ext_module = Some ''bar/main'', ext_initializer = None\<rparr>"

definition both_config :: IExtensionJSON where
  "both_config = \<lparr>ext_point = ''foo:point'', ext_loader = Some ''makeItem'',
     ext_data = Some ''menu.json'', ext_config = None, ext_module = Some ''bar/main'',
     ext_initializer = None\<rparr>"

definition plain_config :: IExtensionJSON where
  "plain_config = \<lparr>ext_point = ''foo:point'', ext_loader = None, ext_data = None,
     ext_config = Some 7, ext_module = None, ext_initializer = None\<rparr>"





definition bar_point :: IExtensionPointJSON where
  "bar_point = \<lparr>pt_id = ''bar:point'', pt_receiver = ''addItem'', pt_module = Some ''bar/main'',
                pt_initializer = Some ''init''\<rparr>"

definition bar_extension :: IExtensionJSON where
  "bar_extension = \<lparr>ext_point = ''bar:point'', ext_loader = None, ext_data = None,
     ext_config = Some 7, ext_module = None, ext_initializer = None\<rparr>"

definition bar_module :: "(string \<times> val) list" where
  "bar_module = [(''addItem'', VFunction (Returns (VForeign 1 True))), (''init'', VFunction Async)]"

text \<open>The calls of \<open>ExtensionPoint.connect\<close> in a trace, in order: (point, extension).\<close>

fun connections :: "event list \<Rightarrow> (nat \<times> nat) list" where
  "connections [] = []"
| "connections (Connecting p e # evs) = (p, e) # connections evs"
| "connections (ev # evs) = connections evs"



text \<open>
  The part of the state that only the registration functions change: the two registries,
  the number of instances, and the calls of \<open>connect\<close> so far.
\<close>

definition registry_view ::
    "state \<Rightarrow> (string \<times> nat) list \<times> (string \<times> nat list) list \<times> nat \<times> nat \<times> (nat \<times> nat) list" where
  "registry_view st =
     (allExtensionPoints st, allExtensions st, length (exts st), length (points st),
      connections (trace st))"

text \<open>
  The points whose initializer has been called, in a trace; the points whose initializer
  a waiting callback is going to call; the points that a waiting \<open>_load\<close> callback is
  going to initialize.
\<close>

fun inits :: "event list \<Rightarrow> nat list" where
  "inits [] = []"
| "inits (Called (PointInitializer p) # evs) = p # inits evs"
| "inits (ev # evs) = inits evs"

fun kont_inits :: "kont \<Rightarrow> nat list" where
  "kont_inits (K_initialize_mod p) = [p]"
| "kont_inits k = []"

fun kont_loads :: "kont \<Rightarrow> nat list" where
  "kont_loads (K_load p) = [p]"
| "kont_loads k = []"

text \<open>
  The part of the state that decides how often a point's initializer runs: the calls so
  far, the waiting callbacks of the two kinds, the \<open>_initialized\<close> flags, and the points
  held by the registry.
\<close>

definition init_view :: "state \<Rightarrow> nat list \<times> nat list \<times> nat list \<times> bool list \<times> nat list" where
  "init_view st =
     (inits (trace st), concat (map kont_inits (pending_konts st)),
      concat (map kont_loads (pending_konts st)), map p_initialized (points st),
      map snd (allExtensionPoints st))"

text \<open>
  The invariant: for every point, the calls of its initializer so far and the waiting
  callbacks that will call it are together at most one, and none unless the flag is set;
  the waiting \<open>_load\<close> callbacks and the registry refer to points that exist.
\<close>

definition init_ok :: "nat list \<times> nat list \<times> nat list \<times> bool list \<times> nat list \<Rightarrow> bool" where
  "init_ok v =
     (case v of (called, waiting, loading, flags, held) \<Rightarrow>
        (\<forall>p. count_list called p + count_list waiting p
               \<le> (if p < length flags \<and> flags ! p then 1 else 0))
        \<and> (\<forall>p\<in>set loading. p < length flags)
        \<and> (\<forall>p\<in>set held. p < length flags))"

text \<open>Two extensions wait for a point with an initializer; the point is registered, and
  both connections run to completion.\<close>

definition two_waiting :: state where
  "two_waiting =
     drain 30 (exec (Settle 19 (Fulfilled (VForeign 5 True)))
    (drain 30 (exec (Settle 10 (Fulfilled (VModule bar_module)))
    (drain 30 (exec (Settle 5 (Fulfilled (VModule bar_module)))
    (drain 30 (exec (Settle 2 (Fulfilled (VModule bar_module)))
       (run [Call_loadExtension bar_extension, Call_loadExtension bar_extension,
             Call_loadExtensionPoint bar_point] (init [] [])))))))))"

section \<open>Promises that are never rejected\<close>

text \<open>The promise that a reaction settles.\<close>

fun target :: "reaction \<Rightarrow> nat" where
  "target (Then f r d) = d"
| "target (AllElem d) = d"
| "target (Adopt d) = d"

text \<open>
  \<open>grows s st\<close>: from \<open>s\<close> to \<open>st\<close>, promises and reactions were only added, and every
  added reaction settles an added promise. This is what the synchronous code and the
  bodies of the callbacks do to the promises.
\<close>

definition grows :: "state \<Rightarrow> state \<Rightarrow> bool" where
  "grows s st \<longleftrightarrow>
     length (promises s) \<le> length (promises st)
     \<and> take (length (promises s)) (promises st) = promises s
     \<and> length (pool s) \<le> length (pool st)
     \<and> take (length (pool s)) (pool st) = pool s
     \<and> list_all (\<lambda>x. length (promises s) \<le> target (snd x) \<and> target (snd x) < length (promises st))
          (drop (length (pool s)) (pool st))"

definition targets_wf :: "state \<Rightarrow> bool" where
  "targets_wf st = list_all (\<lambda>x. target (snd x) < length (promises st)) (pool st)"

text \<open>
  A promise of the engine that has not been rejected; one that can only be settled by a
  \<open>catch\<close> with \<open>console.error\<close>; a \<open>Promise.all\<close> over such promises; the promise of
  \<open>Plugin.load\<close> on such a \<open>Promise.all\<close>.
\<close>

definition not_rejected :: "state \<Rightarrow> nat \<Rightarrow> bool" where
  "not_rejected st d \<longleftrightarrow>
     d < length (promises st) \<and> \<not> external (promises st ! d)
     \<and> (case pstate (promises st ! d) of Rejected err \<Rightarrow> False | _ \<Rightarrow> True)"

definition caught :: "state \<Rightarrow> nat \<Rightarrow> bool" where
  "caught st c \<longleftrightarrow>
     not_rejected st c
     \<and> list_all (\<lambda>x. target (snd x) \<noteq> c \<or> snd x = Then None (Some K_console_error) c) (pool st)"

definition all_caught :: "state \<Rightarrow> nat \<Rightarrow> bool" where
  "all_caught st a \<longleftrightarrow>
     not_rejected st a
     \<and> list_all (\<lambda>x. target (snd x) \<noteq> a \<or> snd x = AllElem a \<and> caught st (fst x)) (pool st)"

fun is_plugin_load :: "reaction \<Rightarrow> nat \<Rightarrow> bool" where
  "is_plugin_load (Then (Some (K_plugin_load g)) None d') d = (d' = d)"
| "is_plugin_load r d = False"

definition load_safe :: "state \<Rightarrow> nat \<Rightarrow> bool" where
  "load_safe st d \<longleftrightarrow>
     not_rejected st d
     \<and> list_all (\<lambda>x. target (snd x) \<noteq> d \<or> is_plugin_load (snd x) d \<and> all_caught st (fst x)) (pool st)"


text \<open>
  \<open>steps_to t s st\<close>: what one step of the machine does to the promises. Promises are
  only added, no promise other than \<open>t\<close> changes its outcome, and every added reaction
  settles an added promise or makes \<open>t\<close> follow another promise.
\<close>

definition steps_to :: "nat \<Rightarrow> state \<Rightarrow> state \<Rightarrow> bool" where
  "steps_to t s st \<longleftrightarrow>
     length (promises s) \<le> length (promises st)
     \<and> (\<forall>q < length (promises s).
          external (promises st ! q) = external (promises s ! q)
          \<and> (q \<noteq> t \<longrightarrow> pstate (promises st ! q) = pstate (promises s ! q)))
     \<and> list_all (\<lambda>x. x \<in> set (pool s)
                     \<or> length (promises s) \<le> target (snd x) \<and> target (snd x) < length (promises st)
                     \<or> snd x = Adopt t) (pool st)"

text \<open>
  A plugin \<open>baz\<close> with one extension point and two extensions to that point, the first
  with a data file. \<open>baz_waiting\<close> is the state after \<open>load()\<close> when the point's module
  has been resolved for the first extension (promise 3) and the engine waits for the data
  file (promise 18) and, for the second extension, for the point's module again
  (promise 9). In \<open>baz_failed err\<close> the resolution of the data file has failed with
  \<open>err\<close>; in \<open>baz_done err\<close> the module has then been resolved for the second extension.
\<close>

definition baz_config :: IPluginJSON where
  "baz_config =
     \<lparr>pl_module = Some ''main'', pl_initializer = None,
      pl_extensionPoints = Some [\<lparr>pt_id = ''baz:point'', pt_receiver = ''addItem'',
                                  pt_module = None, pt_initializer = None\<rparr>],
      pl_extensions = Some [\<lparr>ext_point = ''baz:point'', ext_loader = None,
                              ext_data = Some ''items.json'', ext_config = None,
                              ext_module = None, ext_initializer = None\<rparr>,
                            \<lparr>ext_point = ''baz:point'', ext_loader = None,
                              ext_data = None, ext_config = Some 7, ext_module = None,
                              ext_initializer = None\<rparr>]\<rparr>"

definition baz_module :: val where
  "baz_module = VModule [(''addItem'', VFunction (Returns (VForeign 1 True)))]"

definition baz_available :: state where
  "baz_available = (init [] [])\<lparr>plugins := [Plugin_new ''baz'' baz_config]\<rparr>"

definition baz_waiting :: state where
  "baz_waiting =
     drain 30 (exec (Settle 3 (Fulfilled baz_module))
    (drain 30 (snd (Plugin_load 0 baz_available))))"

definition baz_failed :: "val \<Rightarrow> state" where
  "baz_failed err = drain 30 (exec (Settle 18 (Rejected err)) baz_waiting)"

definition baz_done :: "val \<Rightarrow> state" where
  "baz_done err = drain 30 (exec (Settle 9 (Fulfilled baz_module)) (baz_failed err))"
section \<open>Properties\<close>

lemmas machine_defs = init_def emit_def new_promise_def Promise_resolve_def System_import_def
  promise_then_def Promise_all_def settle_def resolve_with_def js_call_def then_val_def
  upd_point_def upd_ext_def upd_plugin_def finish_def run_def ready_def call_member_then_def

lemmas Extension_load_defs = Extension_load_def Extension_loadData_def Extension_loadObject_def

lemmas fresh_defs = fresh_extension_def loadExtension_def Extension_new_def DisposableSet_new_def
  initialized_extension_def Extension_initialize_def

lemmas connect_defs = loadExtensionPoint_def loadExtension_def ExtensionPoint_new_def
  Extension_new_def DisposableSet_new_def ExtensionPoint_connect_def ExtensionPoint_load_def
  ExtensionPoint_initialize_def ExtensionPoint_connectExtension_def

lemma drain_numeral [simp]:
  "drain (numeral k) st =
     (case first_ready st (pool st) 0 of
        None \<Rightarrow> st
      | Some i \<Rightarrow> drain (pred_numeral k) (exec (RunReaction i) st))"
  by (simp add: numeral_eq_Suc)

subsection \<open>The plugin manager\<close>



text \<open>
  Claim C9 (the code does not do what the claim says). After a first \<open>fetchPlugins\<close>
  the name \<open>foo\<close> is available, as plugin 0. The test in \<open>getPluginNames\<close> that should
  skip it reads the global \<open>name\<close> instead of the package's name, so \<open>getPluginNames\<close>
  lists \<open>foo\<close> again, and the second \<open>fetchPlugins\<close> constructs a second plugin and
  replaces the entry of \<open>foo\<close> in \<open>availablePlugins\<close> by it.
\<close>

theorem fetchPlugins_again_replaces_available:
  "map_of (availablePlugins fetched_once) ''foo'' = Some 0
   \<and> length (plugins fetched_once) = 1
   \<and> getPluginNames fetched_once = [''foo'']
   \<and> map_of (availablePlugins fetched_twice) ''foo'' = Some 1
   \<and> length (plugins fetched_twice) = 2
   \<and> pool fetched_twice = []"
  by code_simp

subsection \<open>Plugin.load\<close>

text \<open>
  Claim C3 (the code does not do what the claim says). \<open>loadPlugin('foo')\<close> returns
  promise 10, the promise of \<open>Plugin.load\<close>. When everything has resolved and no
  reaction is left, that promise is fulfilled with the bound function
  \<open>this._initialize.bind(this)\<close>, which nobody has called: the plugin's initializer
  \<open>init\<close> was never called, the plugin's two lists still hold their entries, and its
  disposable set is empty. The point and the extension were registered and connected
  (the receiver was called with the contribution).
\<close>

theorem Plugin_load_never_calls_initialize:
  "fst (loadPlugin ''foo'' foo_available) = Inr 10
   \<and> pool foo_loaded = []
   \<and> list_all (\<lambda>p. pstate p \<noteq> Pending) (promises foo_loaded)
   \<and> pstate (promises foo_loaded ! 10) = Fulfilled (VBoundInitialize 0)
   \<and> trace foo_loaded =
        [Connecting 0 0, Import (Some ''foo/main''), Import (Some ''foo/main''),
         Called (Loader 0),
         Called (Receiver 0 (VContribution None VUndefined (VForeign 3 False)))]
   \<and> Called (PluginInitializer 0) \<notin> set (trace foo_loaded)
   \<and> map_option length (g_extensionPoints (plugins foo_loaded ! 0)) = Some 1
   \<and> map_option length (g_extensions (plugins foo_loaded ! 0)) = Some 1
   \<and> ds_items (g_disposables (plugins foo_loaded ! 0)) = []"
  by code_simp

text \<open>
  Claim C4 (the code does not do what the claim says). After \<open>load()\<close> has run to
  completion the plugin's two lists are not empty, and a second \<open>load()\<close> registers
  their entries again: a second extension point replaces the first under the same id, a
  second extension is constructed and connected to it, and a module is requested. (The
  lists are emptied by \<open>Plugin._initialize\<close> only, which \<open>load\<close> never calls.)
\<close>

theorem Plugin_load_again_registers_again:
  "g_extensionPoints (plugins foo_loaded ! 0) \<noteq> Some []
   \<and> g_extensions (plugins foo_loaded ! 0) \<noteq> Some []
   \<and> length (points foo_loaded) = 1 \<and> length (exts foo_loaded) = 1
   \<and> allExtensionPoints foo_loaded = [(''foo:point'', 0)]
   \<and> length (points (snd (Plugin_load 0 foo_loaded))) = 2
   \<and> length (exts (snd (Plugin_load 0 foo_loaded))) = 2
   \<and> allExtensionPoints (snd (Plugin_load 0 foo_loaded)) = [(''foo:point'', 1)]
   \<and> trace (snd (Plugin_load 0 foo_loaded)) =
        trace foo_loaded @ [Connecting 1 1, Import (Some ''foo/foo/main'')]
   \<and> g_extensionPoints (plugins (snd (Plugin_initialize 0 foo_loaded)) ! 0) = Some []
   \<and> g_extensions (plugins (snd (Plugin_initialize 0 foo_loaded)) ! 0) = Some []"
  by code_simp

subsection \<open>Extension.load\<close>

lemma Extension_load_trace:
  "trace (snd (Extension_load e st)) =
     trace st @ (if truthy (e_data (exts st ! e)) then [Import (e_data (exts st ! e))] else [])
              @ (if truthy (e_loader (exts st ! e)) then [Import (e_module (exts st ! e))] else [])"
  by (simp add: Extension_load_defs machine_defs Let_def)

lemma Extension_load_exts: "exts (snd (Extension_load e st)) = exts st"
  by (simp add: Extension_load_defs machine_defs Let_def)

lemma Extension_load_konts:
  "pending_konts (snd (Extension_load e st)) =
     pending_konts st @ (if truthy (e_data (exts st ! e)) then [K_loadData e] else [])
              @ (if truthy (e_loader (exts st ! e)) then [K_loadObject_mod e] else [])
              @ [K_ext_load e]"
  by (simp add: Extension_load_defs machine_defs Let_def pending_konts_def)

lemma load_data_only_result:
  assumes "truthy (ext_data cfg)" and "\<not> truthy (ext_loader cfg)"
  shows "pstate (promises (load_data_only cfg v) ! 5)
           = Fulfilled (VContribution (ext_config cfg) v VUndefined)"
  using assms
  by (simp add: load_data_only_def fresh_defs Extension_load_defs machine_defs Let_def)

lemma load_data_only_trace:
  assumes "truthy (ext_data cfg)" and "\<not> truthy (ext_loader cfg)"
  shows "trace (load_data_only cfg v) = [Import (ext_data cfg)]"
  using assms
  by (simp add: load_data_only_def fresh_defs Extension_load_defs machine_defs Let_def)

lemma load_loader_only_result:
  assumes "\<not> truthy (ext_data cfg)" and "truthy (ext_loader cfg)"
    and "map_of ms (js_str (ext_loader cfg)) = Some (VFunction Async)"
  shows "pstate (promises (load_loader_only cfg ms w) ! 5)
           = Fulfilled (VContribution (ext_config cfg) VUndefined w)"
  using assms
  by (simp add: load_loader_only_def fresh_defs Extension_load_defs machine_defs Let_def)

lemma load_loader_only_trace:
  assumes "\<not> truthy (ext_data cfg)" and "truthy (ext_loader cfg)"
    and "map_of ms (js_str (ext_loader cfg)) = Some (VFunction Async)"
  shows "trace (load_loader_only cfg ms w) = [Import (ext_module cfg), Called (Loader 0)]"
  using assms
  by (simp add: load_loader_only_def fresh_defs Extension_load_defs machine_defs Let_def)

lemma load_both_pending:
  assumes "truthy (ext_data cfg)" and "truthy (ext_loader cfg)"
  shows "map pstate (promises (snd (Extension_load 0 (fresh_extension cfg))))
           = [Fulfilled (VExt 0), Pending, Pending, Pending, Pending, Pending, Pending]"
    and "map external (promises (snd (Extension_load 0 (fresh_extension cfg))))
           = [False, True, False, True, False, False, False]"
  using assms
  by (simp_all add: fresh_defs Extension_load_defs machine_defs Let_def)

lemma load_both_result:
  assumes "truthy (ext_data cfg)" and "truthy (ext_loader cfg)"
    and "map_of ms (js_str (ext_loader cfg)) = Some (VFunction Async)"
  shows "pstate (promises (load_both cfg ms v w) ! 6)
           = Fulfilled (VContribution (ext_config cfg) v w)"
  using assms
  by (simp add: load_both_def fresh_defs Extension_load_defs machine_defs Let_def)

text \<open>
  Claim C6. In any state, the synchronous part of \<open>Extension.load\<close> asks the module
  loader for the data path if and only if one is configured, and for the module if and
  only if a loader is configured, both before it returns: when both are configured the
  two requests are outstanding together, neither waits for the other. It registers the
  data callback and the loader callback under the same conditions, and writes nothing
  to the extension. For an extension registered in an empty engine, with only a data
  path the contribution gets the data and no object, and the loader is never called;
  with only a loader it gets the object and no data; with both, resolved in the opposite
  order, it gets both.
\<close>

theorem Extension_load_independent_concurrent:
  "trace (snd (Extension_load e st)) =
     trace st @ (if truthy (e_data (exts st ! e)) then [Import (e_data (exts st ! e))] else [])
              @ (if truthy (e_loader (exts st ! e)) then [Import (e_module (exts st ! e))] else [])
   \<and> pending_konts (snd (Extension_load e st)) =
     pending_konts st @ (if truthy (e_data (exts st ! e)) then [K_loadData e] else [])
              @ (if truthy (e_loader (exts st ! e)) then [K_loadObject_mod e] else [])
              @ [K_ext_load e]
   \<and> exts (snd (Extension_load e st)) = exts st
   \<and> (truthy (ext_data cfg) \<and> \<not> truthy (ext_loader cfg) \<longrightarrow>
        pstate (promises (load_data_only cfg v) ! 5)
          = Fulfilled (VContribution (ext_config cfg) v VUndefined)
        \<and> trace (load_data_only cfg v) = [Import (ext_data cfg)])
   \<and> (\<not> truthy (ext_data cfg) \<and> truthy (ext_loader cfg)
        \<and> map_of ms (js_str (ext_loader cfg)) = Some (VFunction Async) \<longrightarrow>
        pstate (promises (load_loader_only cfg ms w) ! 5)
          = Fulfilled (VContribution (ext_config cfg) VUndefined w)
        \<and> trace (load_loader_only cfg ms w) = [Import (ext_module cfg), Called (Loader 0)])
   \<and> (truthy (ext_data cfg) \<and> truthy (ext_loader cfg) \<longrightarrow>
        map pstate (promises (snd (Extension_load 0 (fresh_extension cfg))))
          = [Fulfilled (VExt 0), Pending, Pending, Pending, Pending, Pending, Pending]
        \<and> map external (promises (snd (Extension_load 0 (fresh_extension cfg))))
          = [False, True, False, True, False, False, False])
   \<and> (truthy (ext_data cfg) \<and> truthy (ext_loader cfg)
        \<and> map_of ms (js_str (ext_loader cfg)) = Some (VFunction Async) \<longrightarrow>
        pstate (promises (load_both cfg ms v w) ! 6)
          = Fulfilled (VContribution (ext_config cfg) v w))"
  using Extension_load_trace [of e st] Extension_load_konts [of e st] Extension_load_exts [of e st]
    load_data_only_result [of cfg v] load_data_only_trace [of cfg v]
    load_loader_only_result [of cfg ms w] load_loader_only_trace [of cfg ms w]
    load_both_pending [of cfg] load_both_result [of cfg ms v w]
  by blast

theorem Extension_load_independent_concurrent_witness:
  "truthy (ext_data data_config) \<and> \<not> truthy (ext_loader data_config)
   \<and> pstate (promises (load_data_only data_config (VForeign 1 False)) ! 5)
       = Fulfilled (VContribution None (VForeign 1 False) VUndefined)
   \<and> trace (load_data_only data_config (VForeign 1 False)) = [Import (Some ''menu.json'')]
   \<and> \<not> truthy (ext_data loader_config) \<and> truthy (ext_loader loader_config)
   \<and> pstate (promises (load_loader_only loader_config [(''makeItem'', VFunction Async)]
                         (VForeign 2 False)) ! 5)
       = Fulfilled (VContribution (Some 7) VUndefined (VForeign 2 False))
   \<and> truthy (ext_data both_config) \<and> truthy (ext_loader both_config)
   \<and> pstate (promises (load_both both_config [(''makeItem'', VFunction Async)]
                         (VForeign 1 False) (VForeign 2 False)) ! 6)
       = Fulfilled (VContribution None (VForeign 1 False) (VForeign 2 False))"
proof -
  have d: "truthy (ext_data data_config) \<and> \<not> truthy (ext_loader data_config)"
    by (simp add: data_config_def truthy_def)
  have l: "\<not> truthy (ext_data loader_config) \<and> truthy (ext_loader loader_config)
           \<and> map_of [(''makeItem'', VFunction Async)] (js_str (ext_loader loader_config))
               = Some (VFunction Async)"
    by (simp add: loader_config_def truthy_def js_str_def)
  have b: "truthy (ext_data both_config) \<and> truthy (ext_loader both_config)
           \<and> map_of [(''makeItem'', VFunction Async)] (js_str (ext_loader both_config))
               = Some (VFunction Async)"
    by (simp add: both_config_def truthy_def js_str_def)
  have c: "ext_config data_config = None" "ext_data data_config = Some ''menu.json''"
    "ext_config loader_config = Some 7" "ext_config both_config = None"
    by (simp_all add: data_config_def loader_config_def both_config_def)
  from d Extension_load_independent_concurrent
         [of 0 "init [] []" data_config "VForeign 1 False" "[]" VUndefined]
  have "pstate (promises (load_data_only data_config (VForeign 1 False)) ! 5)
          = Fulfilled (VContribution (ext_config data_config) (VForeign 1 False) VUndefined)
        \<and> trace (load_data_only data_config (VForeign 1 False)) = [Import (ext_data data_config)]"
    by blast
  moreover
  from l Extension_load_independent_concurrent
         [of 0 "init [] []" loader_config VUndefined "[(''makeItem'', VFunction Async)]"
             "VForeign 2 False"]
  have "pstate (promises (load_loader_only loader_config [(''makeItem'', VFunction Async)]
                            (VForeign 2 False)) ! 5)
          = Fulfilled (VContribution (ext_config loader_config) VUndefined (VForeign 2 False))"
    by blast
  moreover
  from b Extension_load_independent_concurrent
         [of 0 "init [] []" both_config "VForeign 1 False" "[(''makeItem'', VFunction Async)]"
             "VForeign 2 False"]
  have "pstate (promises (load_both both_config [(''makeItem'', VFunction Async)]
                            (VForeign 1 False) (VForeign 2 False)) ! 6)
          = Fulfilled (VContribution (ext_config both_config) (VForeign 1 False) (VForeign 2 False))"
    by blast
  ultimately show ?thesis using d l b c by simp
qed

subsection \<open>Extension.initialize\<close>

lemma Extension_initialize_nulls:
  "e < length (exts st) \<Longrightarrow> e_extension (exts (snd (Extension_initialize e st)) ! e) = VNull"
  by (simp add: Extension_initialize_def machine_defs Let_def)

lemma null_callbacks:
  assumes "e_extension (exts st ! e) = VNull"
  shows "run_kont (K_ext_load e) x st = (Inr VNull, st)
         \<and> run_kont (K_loadData e) v st = (Inl TypeError, st)
         \<and> run_kont (K_loadObject_result e) w st = (Inl TypeError, st)"
  using assms by simp

lemma reload_plain_result:
  assumes "\<not> truthy (ext_data cfg)" and "\<not> truthy (ext_loader cfg)"
  shows "pstate (promises (reload_plain cfg) ! fst (Extension_load 0 (initialized_extension cfg)))
           = Fulfilled VNull"
  using assms
  by (simp add: reload_plain_def fresh_defs Extension_load_defs machine_defs Let_def)

lemma reload_data_result:
  assumes "truthy (ext_data cfg)"
  shows "pstate (promises (reload_data cfg v) ! fst (Extension_load 0 (initialized_extension cfg)))
           = Rejected TypeError"
  using assms
  by (simp add: reload_data_def fresh_defs Extension_load_defs machine_defs Let_def)

lemma reload_loader_result:
  assumes "\<not> truthy (ext_data cfg)" and "truthy (ext_loader cfg)"
    and "map_of ms (js_str (ext_loader cfg)) = Some (VFunction Async)"
  shows "pstate (promises (reload_loader cfg ms w) ! fst (Extension_load 0 (initialized_extension cfg)))
           = Rejected TypeError"
  using assms
  by (simp add: reload_loader_def fresh_defs Extension_load_defs machine_defs Let_def)


text \<open>
  Claim C10. In any state, \<open>Extension.initialize\<close> sets the extension's stored
  contribution to \<open>null\<close> (its first statement, on both branches). Whenever the stored
  contribution is \<open>null\<close>, the final callback of \<open>load()\<close> returns \<open>null\<close>, and the
  callbacks that store the loaded data and the loaded object throw a \<open>TypeError\<close>. For an
  extension registered in an empty engine and then initialized, the promise of a
  \<open>load()\<close> is fulfilled with \<open>null\<close> when neither a data path nor a loader is
  configured, and rejected with the \<open>TypeError\<close> once the data, or the loader's
  object, has been resolved.
\<close>

theorem Extension_initialize_nulls_contribution:
  "(e < length (exts st) \<longrightarrow>
      e_extension (exts (snd (Extension_initialize e st)) ! e) = VNull)
   \<and> (e_extension (exts st ! e) = VNull \<longrightarrow>
        run_kont (K_ext_load e) x st = (Inr VNull, st)
        \<and> run_kont (K_loadData e) v st = (Inl TypeError, st)
        \<and> run_kont (K_loadObject_result e) w st = (Inl TypeError, st))
   \<and> (\<not> truthy (ext_data cfg) \<and> \<not> truthy (ext_loader cfg) \<longrightarrow>
        pstate (promises (reload_plain cfg) ! fst (Extension_load 0 (initialized_extension cfg)))
          = Fulfilled VNull)
   \<and> (truthy (ext_data cfg) \<longrightarrow>
        pstate (promises (reload_data cfg v) ! fst (Extension_load 0 (initialized_extension cfg)))
          = Rejected TypeError)
   \<and> (\<not> truthy (ext_data cfg) \<and> truthy (ext_loader cfg)
        \<and> map_of ms (js_str (ext_loader cfg)) = Some (VFunction Async) \<longrightarrow>
        pstate (promises (reload_loader cfg ms w) ! fst (Extension_load 0 (initialized_extension cfg)))
          = Rejected TypeError)"
  using Extension_initialize_nulls [of e st] null_callbacks [of st e x v w]
    reload_plain_result [of cfg] reload_data_result [of cfg v] reload_loader_result [of cfg ms w]
  by blast

theorem Extension_initialize_nulls_contribution_witness:
  "0 < length (exts (fresh_extension plain_config))
   \<and> e_extension (exts (fresh_extension plain_config) ! 0) = VContribution (Some 7) VUndefined VUndefined
   \<and> e_extension (exts (initialized_extension plain_config) ! 0) = VNull
   \<and> run_kont (K_loadData 0) (VForeign 1 False) (initialized_extension plain_config)
        = (Inl TypeError, initialized_extension plain_config)
   \<and> \<not> truthy (ext_data plain_config) \<and> \<not> truthy (ext_loader plain_config)
   \<and> pstate (promises (reload_plain plain_config) !
               fst (Extension_load 0 (initialized_extension plain_config))) = Fulfilled VNull
   \<and> truthy (ext_data both_config)
   \<and> pstate (promises (reload_data both_config (VForeign 1 False)) !
               fst (Extension_load 0 (initialized_extension both_config))) = Rejected TypeError
   \<and> \<not> truthy (ext_data loader_config) \<and> truthy (ext_loader loader_config)
   \<and> pstate (promises (reload_loader loader_config [(''makeItem'', VFunction Async)]
                          (VForeign 2 False)) !
               fst (Extension_load 0 (initialized_extension loader_config))) = Rejected TypeError"
proof -
  have a: "0 < length (exts (fresh_extension plain_config))"
       "e_extension (exts (fresh_extension plain_config) ! 0)
          = VContribution (Some 7) VUndefined VUndefined"
    by code_simp+
  have p: "\<not> truthy (ext_data plain_config) \<and> \<not> truthy (ext_loader plain_config)"
    by (simp add: plain_config_def truthy_def)
  have b: "truthy (ext_data both_config)"
    by (simp add: both_config_def truthy_def)
  have l: "\<not> truthy (ext_data loader_config) \<and> truthy (ext_loader loader_config)
           \<and> map_of [(''makeItem'', VFunction Async)] (js_str (ext_loader loader_config))
               = Some (VFunction Async)"
    by (simp add: loader_config_def truthy_def js_str_def)
  from a Extension_initialize_nulls_contribution
           [of 0 "fresh_extension plain_config" VUndefined VUndefined VUndefined plain_config "[]"]
  have n: "e_extension (exts (initialized_extension plain_config) ! 0) = VNull"
    unfolding initialized_extension_def by blast
  from n Extension_initialize_nulls_contribution
           [of 0 "initialized_extension plain_config" VUndefined "VForeign 1 False" VUndefined
               plain_config "[]"]
  have k: "run_kont (K_loadData 0) (VForeign 1 False) (initialized_extension plain_config)
             = (Inl TypeError, initialized_extension plain_config)"
    by blast
  from p Extension_initialize_nulls_contribution
           [of 0 "init [] []" VUndefined VUndefined VUndefined plain_config "[]"]
  have r1: "pstate (promises (reload_plain plain_config) !
               fst (Extension_load 0 (initialized_extension plain_config))) = Fulfilled VNull"
    by blast
  from b Extension_initialize_nulls_contribution
           [of 0 "init [] []" VUndefined "VForeign 1 False" VUndefined both_config "[]"]
  have r2: "pstate (promises (reload_data both_config (VForeign 1 False)) !
               fst (Extension_load 0 (initialized_extension both_config))) = Rejected TypeError"
    by blast
  from l Extension_initialize_nulls_contribution
           [of 0 "init [] []" VUndefined VUndefined "VForeign 2 False" loader_config
               "[(''makeItem'', VFunction Async)]"]
  have r3: "pstate (promises (reload_loader loader_config [(''makeItem'', VFunction Async)]
                          (VForeign 2 False)) !
               fst (Extension_load 0 (initialized_extension loader_config))) = Rejected TypeError"
    by blast
  from a p b l n k r1 r2 r3 show ?thesis by blast
qed

subsection \<open>Registration\<close>

lemma connections_append [simp]: "connections (xs @ ys) = connections xs @ connections ys"
  by (induction xs rule: connections.induct) auto

lemma view_settle [simp]: "registry_view (settle p out st) = registry_view st"
  by (simp add: registry_view_def settle_def)

lemma view_resolve_with [simp]: "registry_view (resolve_with d v st) = registry_view st"
  by (simp add: registry_view_def resolve_with_def settle_def split: val.splits)

lemma view_upd [simp]:
  "registry_view (upd_point p f st) = registry_view st"
  "registry_view (upd_ext e g st) = registry_view st"
  "registry_view (upd_plugin pl h st) = registry_view st"
  by (simp_all add: registry_view_def machine_defs)

lemma view_js_call [simp]: "registry_view (snd (js_call site f st)) = registry_view st"
  by (simp add: registry_view_def machine_defs Let_def split: val.splits fn.splits)

lemma view_Extension_load [simp]: "registry_view (snd (Extension_load e st)) = registry_view st"
  by (simp add: registry_view_def Extension_load_defs machine_defs Let_def)

lemma view_connectExtension [simp]:
  "registry_view (snd (ExtensionPoint_connectExtension p e st)) = registry_view st"
  by (simp add: registry_view_def ExtensionPoint_connectExtension_def Extension_load_defs
        machine_defs Let_def)

lemma view_initialize [simp]:
  "registry_view (snd (ExtensionPoint_initialize p st)) = registry_view st"
  by (simp add: registry_view_def ExtensionPoint_initialize_def machine_defs Let_def)

lemma view_ext_initialize [simp]:
  "registry_view (snd (Extension_initialize p st)) = registry_view st"
  by (simp add: registry_view_def Extension_initialize_def machine_defs Let_def)

lemma view_call_member_then [simp]:
  "registry_view (snd (call_member_then site m name k st)) = registry_view st"
  by (simp add: registry_view_def machine_defs Let_def
        split: sum.splits val.splits fn.splits prod.splits)

lemma view_loadPackage [simp]: "registry_view (snd (loadPackage name st)) = registry_view st"
  by (simp add: registry_view_def loadPackage_def machine_defs Let_def)

lemma view_loadPackage_each [simp]:
  "registry_view (snd (loadPackage_each names st)) = registry_view st"
  by (induction names arbitrary: st) (simp_all add: split_def Let_def)

lemma view_Promise_all [simp]: "registry_view (snd (Promise_all ps st)) = registry_view st"
  by (simp add: registry_view_def machine_defs Let_def)

lemma view_promise_then [simp]: "registry_view (snd (promise_then p f r st)) = registry_view st"
  by (simp add: registry_view_def machine_defs Let_def)

lemma view_gatherPlugins [simp]: "registry_view (snd (gatherPlugins st)) = registry_view st"
  by (simp add: gatherPlugins_def Let_def split_def)

lemma view_addPackage [simp]: "registry_view (snd (addPackage name config st)) = registry_view st"
  by (simp add: registry_view_def addPackage_def Let_def split: val.splits option.splits)

lemma view_console_error [simp]:
  "registry_view (emit (ConsoleError v) st) = registry_view st"
  by (simp add: registry_view_def emit_def)

lemma view_run_kont: "registry_view (snd (run_kont k v st)) = registry_view st"
  by (cases k) (simp_all add: split_def Let_def split: sum.splits val.splits)

lemma view_finish: "registry_view (finish d res) = registry_view (snd res)"
  by (simp add: finish_def split: prod.splits sum.splits)

lemma view_pool [simp]: "registry_view (st\<lparr>pool := x\<rparr>) = registry_view st"
  by (simp add: registry_view_def)

lemma view_promises [simp]: "registry_view (st\<lparr>promises := x\<rparr>) = registry_view st"
  by (simp add: registry_view_def)

lemma view_run_reaction: "registry_view (run_reaction r out st) = registry_view st"
  by (cases "(r, out, st)" rule: run_reaction.cases)
     (simp_all add: view_finish view_run_kont Let_def split: option.splits)


lemma view_connect:
  "registry_view (snd (ExtensionPoint_connect p e st)) =
     (allExtensionPoints st, allExtensions st, length (exts st), length (points st),
      connections (trace st) @ [(p, e)])"
  by (simp add: registry_view_def connect_defs Extension_load_defs machine_defs Let_def)

lemma connect_components:
  "allExtensionPoints (snd (ExtensionPoint_connect p e st)) = allExtensionPoints st"
  "allExtensions (snd (ExtensionPoint_connect p e st)) = allExtensions st"
  "length (exts (snd (ExtensionPoint_connect p e st))) = length (exts st)"
  "length (points (snd (ExtensionPoint_connect p e st))) = length (points st)"
  "connections (trace (snd (ExtensionPoint_connect p e st))) = connections (trace st) @ [(p, e)]"
  using view_connect [of p e st] by (simp_all add: registry_view_def)

lemma view_connect_each:
  "registry_view (snd (connect_each p es st)) =
     (allExtensionPoints st, allExtensions st, length (exts st), length (points st),
      connections (trace st) @ map (Pair p) es)"
proof (induction es arbitrary: st)
  case Nil
  show ?case by (simp add: registry_view_def)
next
  case (Cons e es)
  have "registry_view (snd (connect_each p (e # es) st))
          = registry_view (snd (connect_each p es (snd (ExtensionPoint_connect p e st))))"
    by (simp add: split_def Let_def)
  then show ?case
    by (simp add: Cons.IH connect_components)
qed

lemma loadExtension_queued:
  assumes "map_of (allExtensionPoints st) (ext_point cfg) = None"
  shows "loadExtension cfg st =
     (length (promises st),
      st\<lparr>promises := promises st @ [\<lparr>pstate = Fulfilled (VExt (length (exts st))),
                                      remaining = 0, external = False\<rparr>],
         exts := exts st @ [Extension_new cfg],
         allExtensions := AList.update (ext_point cfg)
            ((case map_of (allExtensions st) (ext_point cfg) of Some xs \<Rightarrow> xs | None \<Rightarrow> [])
               @ [length (exts st)]) (allExtensions st)\<rparr>)"
  using assms by (simp add: loadExtension_def machine_defs Let_def)

lemma view_loadExtension_connected:
  assumes "map_of (allExtensionPoints st) (ext_point cfg) = Some p"
  shows "registry_view (snd (loadExtension cfg st)) =
     (allExtensionPoints st, allExtensions st, Suc (length (exts st)), length (points st),
      connections (trace st) @ [(p, length (exts st))])"
proof -
  have "registry_view (snd (loadExtension cfg st))
          = registry_view (snd (ExtensionPoint_connect p (length (exts st))
                                  (st\<lparr>exts := exts st @ [Extension_new cfg]\<rparr>)))"
    using assms by (simp add: loadExtension_def Let_def split_def)
  then show ?thesis by (simp add: view_connect)
qed

lemma view_loadExtensionPoint:
  "registry_view (snd (loadExtensionPoint cfg st)) =
     (AList.update (pt_id cfg) (length (points st)) (allExtensionPoints st),
      AList.delete (pt_id cfg) (allExtensions st), length (exts st), Suc (length (points st)),
      connections (trace st) @
        map (Pair (length (points st)))
          (case map_of (allExtensions st) (pt_id cfg) of None \<Rightarrow> [] | Some es \<Rightarrow> es))"
proof (cases "map_of (allExtensions st) (pt_id cfg)")
  case None
  then have "AList.delete (pt_id cfg) (allExtensions st) = allExtensions st"
    by (simp add: delete_id map_of_eq_None_iff)
  with None show ?thesis
    by (simp add: loadExtensionPoint_def registry_view_def machine_defs Let_def)
next
  case (Some es)
  then show ?thesis
    by (simp add: loadExtensionPoint_def Let_def split_def view_connect_each)
qed

lemma view_loadExtension_queued:
  assumes "map_of (allExtensionPoints st) (ext_point cfg) = None"
  shows "registry_view (snd (loadExtension cfg st)) =
     (allExtensionPoints st,
      AList.update (ext_point cfg)
        ((case map_of (allExtensions st) (ext_point cfg) of Some xs \<Rightarrow> xs | None \<Rightarrow> [])
           @ [length (exts st)]) (allExtensions st),
      Suc (length (exts st)), length (points st), connections (trace st))"
  by (simp add: loadExtension_queued [OF assms] registry_view_def)












subsection \<open>ExtensionPoint.connect: failures\<close>














subsection \<open>The initializer of an extension point\<close>

lemma inits_append [simp]: "inits (xs @ ys) = inits xs @ inits ys"
  by (induction xs rule: inits.induct) auto

lemma count_inits: "count_list (inits tr) p = count_list tr (Called (PointInitializer p))"
  by (induction tr rule: inits.induct) auto

lemma pending_konts_simps [simp]:
  "pending_konts (st\<lparr>pool := xs @ ys\<rparr>)
     = pending_konts (st\<lparr>pool := xs\<rparr>) @ pending_konts (st\<lparr>pool := ys\<rparr>)"
  "pending_konts (st\<lparr>pool := []\<rparr>) = []"
  "pending_konts (st\<lparr>pool := x # xs\<rparr>) = konts_of (snd x) @ pending_konts (st\<lparr>pool := xs\<rparr>)"
  by (simp_all add: pending_konts_def)

lemma map_update_same [simp]: "(map f xs)[p := f (xs ! p)] = map f xs"
  by (metis list_update_id map_update)

lemma iv_settle [simp]: "init_view (settle p out st) = init_view st"
  by (simp add: init_view_def settle_def pending_konts_def)

lemma iv_resolve_with [simp]: "init_view (resolve_with d v st) = init_view st"
  by (simp add: init_view_def resolve_with_def settle_def pending_konts_def split: val.splits)

lemma iv_upd [simp]:
  "init_view (upd_ext e g st) = init_view st"
  "init_view (upd_plugin pl h st) = init_view st"
  "init_view (upd_point p (\<lambda>x. x\<lparr>p_receiverFunc := rf\<rparr>) st) = init_view st"
  "init_view (upd_point p (\<lambda>x. x\<lparr>p_disposables := ds\<rparr>) st) = init_view st"
  by (simp_all add: init_view_def machine_defs pending_konts_def map_update)

lemma iv_promise_ops [simp]:
  "init_view (snd (new_promise ps n ext st)) = init_view st"
  "init_view (snd (Promise_resolve v st)) = init_view st"
  "init_view (snd (System_import path st)) = init_view st"
  "init_view (snd (Promise_all qs st)) = init_view st"
  by (simp_all add: init_view_def machine_defs pending_konts_def Let_def comp_def)

lemma iv_promise_then:
  "init_view (snd (promise_then q f r st)) =
     (case init_view st of (called, waiting, loading, flags, held) \<Rightarrow>
        (called,
         waiting @ concat (map kont_inits (konts_of (Then f r 0))),
         loading @ concat (map kont_loads (konts_of (Then f r 0))), flags, held))"
  by (simp add: init_view_def machine_defs pending_konts_def Let_def split: option.splits)

lemma iv_js_call:
  "init_view (snd (js_call site f st)) =
     (case init_view st of (called, rest) \<Rightarrow>
        (called @ (case f of VFunction b \<Rightarrow> inits [Called site] | _ \<Rightarrow> []), rest))"
  by (simp add: init_view_def machine_defs pending_konts_def Let_def split: val.splits fn.splits)

lemma iv_then_val:
  "init_view (snd (then_val x k st)) =
     (case x of VPromise q \<Rightarrow> init_view (snd (promise_then q (Some k) None st))
      | _ \<Rightarrow> init_view st)"
  by (simp add: then_val_def split_def Let_def split: val.splits)

lemma iv_console [simp]: "init_view (emit (ConsoleError v) st) = init_view st"
  by (simp add: init_view_def emit_def pending_konts_def)

lemma iv_Extension_load [simp]: "init_view (snd (Extension_load e st)) = init_view st"
  by (simp add: Extension_load_defs split_def Let_def iv_promise_then
        split: prod.splits)

lemma iv_connectExtension [simp]:
  "init_view (snd (ExtensionPoint_connectExtension p e st)) = init_view st"
  by (simp add: ExtensionPoint_connectExtension_def split_def Let_def iv_promise_then
        split: prod.splits)

lemma iv_ext_initialize [simp]: "init_view (snd (Extension_initialize e st)) = init_view st"
  by (simp add: Extension_initialize_def split_def Let_def iv_promise_then split: prod.splits)

lemma iv_loadPackage [simp]: "init_view (snd (loadPackage name st)) = init_view st"
  by (simp add: loadPackage_def split_def Let_def iv_promise_then split: prod.splits)

lemma iv_loadPackage_each [simp]: "init_view (snd (loadPackage_each names st)) = init_view st"
  by (induction names arbitrary: st) (simp_all add: split_def Let_def)

lemma iv_gatherPlugins [simp]: "init_view (snd (gatherPlugins st)) = init_view st"
  by (simp add: gatherPlugins_def Let_def split_def iv_promise_then split: prod.splits)

lemma iv_addPackage [simp]: "init_view (snd (addPackage name config st)) = init_view st"
  by (simp add: init_view_def addPackage_def Let_def pending_konts_def
        split: val.splits option.splits)

lemma iv_initialize:
  "init_view (snd (ExtensionPoint_initialize p st)) =
     (case init_view st of (called, waiting, loading, flags, held) \<Rightarrow>
        (called,
         waiting @ (if p_initialized (points st ! p) \<or> \<not> truthy (p_initializer (points st ! p))
                    then [] else [p]),
         loading, flags[p := True], held))"
  by (simp add: ExtensionPoint_initialize_def init_view_def machine_defs pending_konts_def
        Let_def map_update)

lemma iv_connect:
  "init_view (snd (ExtensionPoint_connect p e st)) =
     (case init_view st of (called, waiting, loading, flags, held) \<Rightarrow>
        (called, waiting, loading @ (if p_initialized (points st ! p) then [] else [p]),
         flags, held))"
  by (simp add: ExtensionPoint_connect_def ExtensionPoint_load_def
        ExtensionPoint_connectExtension_def Extension_load_defs init_view_def machine_defs
        pending_konts_def Let_def)

lemma init_okI:
  assumes "\<And>p. count_list called p + count_list waiting p
                 \<le> (if p < length flags \<and> flags ! p then 1 else 0)"
    and "\<And>p. p \<in> set loading \<Longrightarrow> p < length flags"
    and "\<And>p. p \<in> set held \<Longrightarrow> p < length flags"
  shows "init_ok (called, waiting, loading, flags, held)"
  using assms by (simp add: init_ok_def)

lemma init_okD:
  assumes "init_ok (called, waiting, loading, flags, held)"
  shows "count_list called p + count_list waiting p
           \<le> (if p < length flags \<and> flags ! p then 1 else 0)"
    and "p \<in> set loading \<Longrightarrow> p < length flags"
    and "p \<in> set held \<Longrightarrow> p < length flags"
  using assms by (simp_all add: init_ok_def)

lemma init_ok_weaken:
  assumes ok: "init_ok (called, waiting, loading, flags, held)"
    and w: "\<And>p. count_list waiting' p \<le> count_list waiting p"
    and l: "set loading' \<subseteq> set loading"
  shows "init_ok (called, waiting', loading', flags, held)"
proof (rule init_okI)
  fix p
  from init_okD(1) [OF ok, of p] w [of p]
  show "count_list called p + count_list waiting' p
          \<le> (if p < length flags \<and> flags ! p then 1 else 0)"
    by linarith
next
  fix p assume "p \<in> set loading'"
  with l init_okD(2) [OF ok, of p] show "p < length flags" by auto
next
  fix p assume "p \<in> set held"
  with init_okD(3) [OF ok, of p] show "p < length flags" by auto
qed

lemma ok_initialize:
  assumes "init_ok (init_view st)" and "p < length (points st)"
  shows "init_ok (init_view (snd (ExtensionPoint_initialize p st)))"
proof -
  obtain called waiting loading flags held
    where v: "init_view st = (called, waiting, loading, flags, held)"
    by (cases "init_view st") auto
  from v have f: "flags = map p_initialized (points st)"
    by (simp add: init_view_def)
  from assms(1) v have ok: "init_ok (called, waiting, loading, flags, held)"
    by simp
  let ?new = "if p_initialized (points st ! p) \<or> \<not> truthy (p_initializer (points st ! p))
              then [] else [p]"
  have "init_ok (called, waiting @ ?new, loading, flags[p := True], held)"
  proof (rule init_okI)
    fix q
    show "count_list called q + count_list (waiting @ ?new) q
            \<le> (if q < length (flags[p := True]) \<and> flags[p := True] ! q then 1 else 0)"
      using init_okD(1) [OF ok, of q] assms(2) f
      by (auto simp: nth_list_update split: if_splits)
  next
    fix q assume "q \<in> set loading"
    with init_okD(2) [OF ok, of q] show "q < length (flags[p := True])" by simp
  next
    fix q assume "q \<in> set held"
    with init_okD(3) [OF ok, of q] show "q < length (flags[p := True])" by simp
  qed
  then show ?thesis
    by (simp add: iv_initialize v)
qed

lemma ok_connect:
  assumes "init_ok (init_view st)" and "p < length (points st)"
  shows "init_ok (init_view (snd (ExtensionPoint_connect p e st)))"
proof -
  obtain called waiting loading flags held
    where v: "init_view st = (called, waiting, loading, flags, held)"
    by (cases "init_view st") auto
  from v have f: "flags = map p_initialized (points st)"
    by (simp add: init_view_def)
  from assms(1) v have ok: "init_ok (called, waiting, loading, flags, held)"
    by simp
  let ?new = "if p_initialized (points st ! p) then [] else [p]"
  have "init_ok (called, waiting, loading @ ?new, flags, held)"
  proof (rule init_okI)
    fix q
    show "count_list called q + count_list waiting q
            \<le> (if q < length flags \<and> flags ! q then 1 else 0)"
      by (rule init_okD(1) [OF ok])
  next
    fix q assume "q \<in> set (loading @ ?new)"
    with init_okD(2) [OF ok, of q] assms(2) f show "q < length flags"
      by (auto split: if_splits)
  next
    fix q assume "q \<in> set held"
    with init_okD(3) [OF ok, of q] show "q < length flags" by simp
  qed
  then show ?thesis
    by (simp add: iv_connect v)
qed

lemma ok_connect_each:
  assumes "init_ok (init_view st)" and "p < length (points st)"
  shows "init_ok (init_view (snd (connect_each p es st)))"
  using assms
proof (induction es arbitrary: st)
  case Nil
  then show ?case by simp
next
  case (Cons e es)
  have "init_ok (init_view (snd (ExtensionPoint_connect p e st)))"
    using Cons.prems by (rule ok_connect)
  moreover have "p < length (points (snd (ExtensionPoint_connect p e st)))"
    using Cons.prems(2) by (simp add: connect_components)
  ultimately have "init_ok (init_view (snd (connect_each p es (snd (ExtensionPoint_connect p e st)))))"
    by (rule Cons.IH)
  then show ?case by (simp add: split_def Let_def)
qed

lemma set_snd_update: "set (map snd (AList.update k v al)) \<subseteq> insert v (set (map snd al))"
  by (induction al) auto

lemma ok_new_point:
  assumes "init_ok (init_view st)"
  shows "init_ok (init_view (st\<lparr>points := points st @ [ExtensionPoint_new cfg],
            allExtensionPoints := AList.update k (length (points st)) (allExtensionPoints st)\<rparr>))"
proof -
  obtain called waiting loading flags held
    where v: "init_view st = (called, waiting, loading, flags, held)"
    by (cases "init_view st") auto
  from v have f: "flags = map p_initialized (points st)"
    and h: "held = map snd (allExtensionPoints st)"
    by (simp_all add: init_view_def)
  from assms v have ok: "init_ok (called, waiting, loading, flags, held)"
    by simp
  have "init_ok (called, waiting, loading, flags @ [False],
                 map snd (AList.update k (length (points st)) (allExtensionPoints st)))"
  proof (rule init_okI)
    fix q
    show "count_list called q + count_list waiting q
            \<le> (if q < length (flags @ [False]) \<and> (flags @ [False]) ! q then 1 else 0)"
      using init_okD(1) [OF ok, of q]
      by (auto simp: nth_append split: if_splits)
  next
    fix q assume "q \<in> set loading"
    with init_okD(2) [OF ok, of q] show "q < length (flags @ [False])" by simp
  next
    fix q assume "q \<in> set (map snd (AList.update k (length (points st)) (allExtensionPoints st)))"
    with set_snd_update [of k "length (points st)" "allExtensionPoints st"]
    have "q = length (points st) \<or> q \<in> set held"
      by (auto simp: h)
    with init_okD(3) [OF ok, of q] f show "q < length (flags @ [False])"
      by auto
  qed
  moreover have "init_view (st\<lparr>points := points st @ [ExtensionPoint_new cfg],
            allExtensionPoints := AList.update k (length (points st)) (allExtensionPoints st)\<rparr>)
        = (called, waiting, loading, flags @ [False],
           map snd (AList.update k (length (points st)) (allExtensionPoints st)))"
    using v by (simp add: init_view_def pending_konts_def ExtensionPoint_new_def)
  ultimately show ?thesis by simp
qed

lemma ok_loadExtensionPoint:
  assumes "init_ok (init_view st)"
  shows "init_ok (init_view (snd (loadExtensionPoint cfg st)))"
proof -
  let ?st2 = "st\<lparr>points := points st @ [ExtensionPoint_new cfg],
                allExtensionPoints := AList.update (pt_id cfg) (length (points st))
                                        (allExtensionPoints st)\<rparr>"
  have ok2: "init_ok (init_view ?st2)"
    using assms by (rule ok_new_point)
  show ?thesis
  proof (cases "map_of (allExtensions st) (pt_id cfg)")
    case None
    with ok2 show ?thesis
      by (simp add: loadExtensionPoint_def Let_def)
  next
    case (Some es)
    let ?st3 = "?st2\<lparr>allExtensions := AList.delete (pt_id cfg) (allExtensions st)\<rparr>"
    have "init_view ?st3 = init_view ?st2"
      by (simp add: init_view_def pending_konts_def)
    with ok2 have "init_ok (init_view ?st3)" by simp
    moreover have "length (points st) < length (points ?st3)" by simp
    ultimately have "init_ok (init_view (snd (connect_each (length (points st)) es ?st3)))"
      by (rule ok_connect_each)
    with Some show ?thesis
      by (simp add: loadExtensionPoint_def Let_def split_def iv_promise_then split: prod.splits)
  qed
qed

lemma ok_loadExtension:
  assumes "init_ok (init_view st)"
  shows "init_ok (init_view (snd (loadExtension cfg st)))"
proof -
  let ?st1 = "st\<lparr>exts := exts st @ [Extension_new cfg]\<rparr>"
  have v1: "init_view ?st1 = init_view st"
    by (simp add: init_view_def pending_konts_def)
  show ?thesis
  proof (cases "map_of (allExtensionPoints st) (ext_point cfg)")
    case None
    have "init_view (?st1\<lparr>allExtensions := x\<rparr>) = init_view st" for x
      by (simp add: init_view_def pending_konts_def)
    with None assms show ?thesis
      by (simp add: loadExtension_def Let_def)
  next
    case (Some p)
    then have "p \<in> set (map snd (allExtensionPoints st))"
      by (force dest: map_of_SomeD)
    with assms have "p < length (points ?st1)"
      by (auto simp: init_ok_def init_view_def)
    moreover from assms v1 have "init_ok (init_view ?st1)" by simp
    ultimately have "init_ok (init_view (snd (ExtensionPoint_connect p (length (exts st)) ?st1)))"
      by (intro ok_connect)
    with Some show ?thesis
      by (simp add: loadExtension_def Let_def split_def iv_promise_then split: prod.splits)
  qed
qed

lemma iv_promise_then_plain [simp]:
  assumes "concat (map kont_inits (konts_of (Then f r 0))) = []"
    and "concat (map kont_loads (konts_of (Then f r 0))) = []"
  shows "init_view (snd (promise_then q f r st)) = init_view st"
  using assms by (simp add: iv_promise_then split: prod.splits)

lemma ok_Plugin_loadExtensionPoint:
  assumes "init_ok (init_view st)"
  shows "init_ok (init_view (snd (Plugin_loadExtensionPoint g i c st)))"
  using assms
  by (simp add: Plugin_loadExtensionPoint_def Let_def split_def ok_loadExtensionPoint)

lemma ok_Plugin_loadExtension:
  assumes "init_ok (init_view st)"
  shows "init_ok (init_view (snd (Plugin_loadExtension g i c st)))"
  using assms
  by (simp add: Plugin_loadExtension_def Let_def split_def ok_loadExtension)

lemma ok_Plugin_loadExtensionPoints:
  assumes "init_ok (init_view st)"
  shows "init_ok (init_view (snd (Plugin_loadExtensionPoints g i cs st)))"
  using assms
  by (induction cs arbitrary: i st)
     (simp_all add: split_def Let_def ok_Plugin_loadExtensionPoint)

lemma ok_Plugin_loadExtensions:
  assumes "init_ok (init_view st)"
  shows "init_ok (init_view (snd (Plugin_loadExtensions g i cs st)))"
  using assms
  by (induction cs arbitrary: i st)
     (simp_all add: split_def Let_def ok_Plugin_loadExtension)

lemma ok_Plugin_load:
  assumes "init_ok (init_view st)"
  shows "init_ok (init_view (snd (Plugin_load g st)))"
  using assms
  by (simp add: Plugin_load_def Let_def split_def ok_Plugin_loadExtensionPoints
        ok_Plugin_loadExtensions split: option.splits)

lemma inits_Disposed [simp]: "inits (map Disposed xs) = []"
  by (induction xs) auto

lemma iv_Plugin_dispose [simp]: "init_view (Plugin_dispose g st) = init_view st"
  by (simp add: Plugin_dispose_def DisposableSet_dispose_def Let_def init_view_def machine_defs
        pending_konts_def)

lemma ok_api:
  assumes "init_ok (init_view st)"
  shows "init_ok (init_view (snd (loadPlugin name st)))"
    and "init_ok (init_view (unloadPlugin name st))"
    and "init_ok (init_view (snd (fetchPlugins st)))"
proof -
  have a: "init_view (st\<lparr>availablePlugins := x\<rparr>) = init_view st" for x
    by (simp add: init_view_def pending_konts_def)
  have b: "init_view (st\<lparr>availablePlugins := x, loadedPlugins := y\<rparr>) = init_view st" for x y
    by (simp add: init_view_def pending_konts_def)
  have c: "init_view (emit (SystemDelete s) st) = init_view st" for s
    by (simp add: init_view_def emit_def pending_konts_def)
  from assms show "init_ok (init_view (snd (loadPlugin name st)))"
    by (simp add: loadPlugin_def Let_def split_def ok_Plugin_load b split: option.splits)
  from assms show "init_ok (init_view (unloadPlugin name st))"
    by (simp add: unloadPlugin_def split: option.splits)
  from assms show "init_ok (init_view (snd (fetchPlugins st)))"
    by (simp add: fetchPlugins_def Let_def split_def a c)
qed

text \<open>A callback that has left the pool and is about to run still counts as waiting.\<close>

lemma ok_run_kont:
  assumes "init_ok (case init_view st of (called, waiting, loading, flags, held) \<Rightarrow>
             (called, kont_inits k @ waiting, kont_loads k @ loading, flags, held))"
  shows "init_ok (init_view (snd (run_kont k v st)))"
proof -
  obtain called waiting loading flags held
    where w: "init_view st = (called, waiting, loading, flags, held)"
    by (cases "init_view st") auto
  from assms w have ok': "init_ok (called, kont_inits k @ waiting, kont_loads k @ loading, flags, held)"
    by simp
  then have ok: "init_ok (init_view st)"
    unfolding w by (rule init_ok_weaken) auto
  show ?thesis
  proof (cases k)
    case (K_load p)
    with ok' have "p < length flags"
      by (auto dest: init_okD(2) [where p = p])
    with w have p: "p < length (points st)"
      by (auto simp: init_view_def)
    have "init_ok (init_view (snd (ExtensionPoint_initialize p
             (upd_point p (\<lambda>x. x\<lparr>p_receiverFunc := rf\<rparr>) st))))" for rf
    proof (rule ok_initialize)
      show "init_ok (init_view (upd_point p (\<lambda>x. x\<lparr>p_receiverFunc := rf\<rparr>) st))"
        using ok by simp
      show "p < length (points (upd_point p (\<lambda>x. x\<lparr>p_receiverFunc := rf\<rparr>) st))"
        using p by (simp add: upd_point_def)
    qed
    with ok show ?thesis
      by (simp add: K_load split_def Let_def split: sum.splits)
  next
    case (K_initialize_mod p)
    with ok' have c: "init_ok (called, p # waiting, loading, flags, held)"
      by simp
    have "init_ok (called @ [p], waiting, loading, flags, held)"
    proof (rule init_okI)
      fix q
      from init_okD(1) [OF c, of q]
      show "count_list (called @ [p]) q + count_list waiting q
              \<le> (if q < length flags \<and> flags ! q then 1 else 0)"
        by (auto split: if_splits)
    next
      fix q assume "q \<in> set loading"
      with init_okD(2) [OF c, of q] show "q < length flags" by simp
    next
      fix q assume "q \<in> set held"
      with init_okD(3) [OF c, of q] show "q < length flags" by simp
    qed
    with ok w show ?thesis
      by (simp add: K_initialize_mod call_member_then_def iv_then_val iv_js_call split_def
            split: sum.splits val.splits)
  next
    case (K_connectExtension p receiver e)
    with ok show ?thesis
      by (cases "init_view st")
         (simp add: iv_js_call split_def Let_def add_if_disposable_def
            split: sum.splits val.splits)
  next
    case (K_ext_initialize_mod e)
    with ok show ?thesis
      by (cases "init_view st")
         (simp add: call_member_then_def iv_then_val iv_js_call split_def
            split: sum.splits val.splits)
  next
    case (K_loadObject_mod e)
    with ok show ?thesis
      by (cases "init_view st")
         (simp add: call_member_then_def iv_then_val iv_js_call split_def
            split: sum.splits val.splits)
  next
    case (K_plugin_initialize_mod g)
    with ok show ?thesis
      by (cases "init_view st")
         (simp add: iv_js_call split_def Let_def
            split: sum.splits val.splits)
  qed (use ok in \<open>simp_all add: split_def Let_def split: sum.splits val.splits\<close>)
qed

lemma iv_finish: "init_view (finish d res) = init_view (snd res)"
  by (simp add: finish_def split: prod.splits sum.splits)

lemma iv_promises [simp]: "init_view (st\<lparr>promises := x\<rparr>) = init_view st"
  by (simp add: init_view_def pending_konts_def)

lemma count_list_concat_member:
  assumes "k \<in> set ks"
  shows "count_list (f k) p \<le> count_list (concat (map f ks)) p"
  using assms by (induction ks) auto

lemma set_concat_member:
  assumes "k \<in> set ks"
  shows "set (f k) \<subseteq> set (concat (map f ks))"
  using assms by auto

lemma ok_without_reaction:
  assumes ok: "init_ok (init_view st)" and i: "i < length (pool st)"
    and k: "ks = [] \<or> (\<exists>k. ks = [k] \<and> k \<in> set (konts_of (snd (pool st ! i))))"
  shows "init_ok (case init_view (st\<lparr>pool := take i (pool st) @ drop (Suc i) (pool st)\<rparr>) of
            (called, waiting, loading, flags, held) \<Rightarrow>
              (called, concat (map kont_inits ks) @ waiting,
               concat (map kont_loads ks) @ loading, flags, held))"
proof -
  let ?a = "take i (pool st)" and ?b = "drop (Suc i) (pool st)" and ?r = "snd (pool st ! i)"
  let ?pk = "\<lambda>xs. concat (map (\<lambda>sr. konts_of (snd sr)) xs)"
  have "pool st = ?a @ pool st ! i # ?b"
    using i by (rule id_take_nth_drop)
  then have "pending_konts st = ?pk (?a @ pool st ! i # ?b)"
    by (simp add: pending_konts_def)
  then have p: "pending_konts st = ?pk ?a @ konts_of ?r @ ?pk ?b"
    by simp
  let ?wi = "\<lambda>ks. concat (map kont_inits ks)" and ?wl = "\<lambda>ks. concat (map kont_loads ks)"
  from ok have "init_ok (inits (trace st), ?wi (?pk ?a) @ ?wi (konts_of ?r) @ ?wi (?pk ?b),
        ?wl (?pk ?a) @ ?wl (konts_of ?r) @ ?wl (?pk ?b), map p_initialized (points st),
        map snd (allExtensionPoints st))"
    by (simp add: init_view_def p)
  then have "init_ok (inits (trace st), ?wi ks @ ?wi (?pk ?a) @ ?wi (?pk ?b),
        ?wl ks @ ?wl (?pk ?a) @ ?wl (?pk ?b), map p_initialized (points st),
        map snd (allExtensionPoints st))"
  proof (rule init_ok_weaken)
    fix p
    from k show "count_list (?wi ks @ ?wi (?pk ?a) @ ?wi (?pk ?b)) p
            \<le> count_list (?wi (?pk ?a) @ ?wi (konts_of ?r) @ ?wi (?pk ?b)) p"
      using count_list_concat_member [of _ "konts_of ?r" kont_inits p] by auto
  next
    from k show "set (?wl ks @ ?wl (?pk ?a) @ ?wl (?pk ?b))
            \<subseteq> set (?wl (?pk ?a) @ ?wl (konts_of ?r) @ ?wl (?pk ?b))"
      by auto
  qed
  then show ?thesis
    by (simp add: init_view_def pending_konts_def)
qed

lemma ok_run_reaction:
  assumes ok: "init_ok (init_view st)" and i: "i < length (pool st)"
  shows "init_ok (init_view (run_reaction (snd (pool st ! i)) out
            (st\<lparr>pool := take i (pool st) @ drop (Suc i) (pool st)\<rparr>)))"
proof -
  let ?st = "st\<lparr>pool := take i (pool st) @ drop (Suc i) (pool st)\<rparr>"
  from ok_without_reaction [OF ok i, of "[]"] have ok0: "init_ok (init_view ?st)"
    by (simp split: prod.splits)
  have run: "init_ok (init_view (snd (run_kont k v ?st)))"
    if "k \<in> set (konts_of (snd (pool st ! i)))" for k v
  proof (rule ok_run_kont)
    from ok_without_reaction [OF ok i, of "[k]"] that
    show "init_ok (case init_view ?st of (called, waiting, loading, flags, held) \<Rightarrow>
             (called, kont_inits k @ waiting, kont_loads k @ loading, flags, held))"
      by simp
  qed
  show ?thesis
  proof (cases "snd (pool st ! i)")
    case (Then f h d)
    show ?thesis
    proof (cases out)
      case Pending
      with ok0 Then show ?thesis by simp
    next
      case (Fulfilled v)
      with ok0 Then run show ?thesis
        by (cases f) (simp_all add: iv_finish)
    next
      case (Rejected err)
      with ok0 Then run show ?thesis
        by (cases h; cases f) (simp_all add: iv_finish)
    qed
  next
    case (AllElem d)
    with ok0 show ?thesis
      by (cases out) (simp_all add: Let_def)
  next
    case (Adopt d)
    with ok0 show ?thesis
      by (cases out) simp_all
  qed
qed

lemma ok_exec:
  assumes "init_ok (init_view st)"
  shows "init_ok (init_view (exec a st))"
proof (cases a)
  case (RunReaction i)
  show ?thesis
  proof (cases "i < length (pool st)")
    case True
    obtain src r where sr: "pool st ! i = (src, r)"
      by (cases "pool st ! i") auto
    from ok_run_reaction [OF assms True, of "pstate (promises st ! src)"] assms show ?thesis
      by (simp add: RunReaction True sr)
  next
    case False
    with assms show ?thesis by (simp add: RunReaction)
  qed
qed (use assms in \<open>simp_all add: ok_loadExtensionPoint ok_loadExtension ok_api\<close>)

lemma ok_run:
  assumes "init_ok (init_view st)"
  shows "init_ok (init_view (run acts st))"
  using assms
  by (induction acts arbitrary: st) (simp_all add: run_def ok_exec)

lemma initializer_at_most_once:
  "count_list (trace (run acts (init npm g))) (Called (PointInitializer p)) \<le> 1"
proof -
  have "init_ok (init_view (init npm g))"
    by (simp add: init_ok_def init_view_def init_def pending_konts_def)
  then have "init_ok (init_view (run acts (init npm g)))"
    by (rule ok_run)
  then have "count_list (inits (trace (run acts (init npm g)))) p \<le> 1"
    by (cases "init_view (run acts (init npm g))")
       (auto simp: init_view_def dest!: init_okD(1) [where p = p] split: if_splits)
  then show ?thesis
    by (simp add: count_inits)
qed

text \<open>
  Claim C2. From the empty engine, after any history of calls of the exported
  functions, settlements of outside promises and reactions run in any order, the
  initializer of every extension point instance has been called at most once. In
  particular this holds for the history in which two extensions wait for a point with an
  initializer, the point is registered, and both calls of \<open>connect\<close> find the point not
  yet initialized and load it at the same time: the initializer is called exactly once,
  and both extensions get connected.
\<close>

theorem point_initializer_at_most_once:
  "count_list (trace (run acts (init npm g))) (Called (PointInitializer p)) \<le> 1
   \<and> connections (trace two_waiting) = [(0, 0), (0, 1)]
   \<and> count_list (trace two_waiting) (Called (PointInitializer 0)) = 1
   \<and> count_list (trace two_waiting)
        (Called (Receiver 0 (VContribution (Some 7) VUndefined VUndefined))) = 2
   \<and> pool two_waiting = []"
proof -
  have "connections (trace two_waiting) = [(0, 0), (0, 1)]
        \<and> count_list (trace two_waiting) (Called (PointInitializer 0)) = 1
        \<and> count_list (trace two_waiting)
             (Called (Receiver 0 (VContribution (Some 7) VUndefined VUndefined))) = 2
        \<and> pool two_waiting = []"
    by code_simp
  with initializer_at_most_once [of acts npm g p] show ?thesis
    by blast
qed

subsection \<open>The promise of Plugin.load\<close>

lemma grows_refl [simp]: "grows st st"
  by (simp add: grows_def)

lemma grows_fields [simp]:
  "grows s (st\<lparr>points := a\<rparr>) = grows s st"
  "grows s (st\<lparr>exts := b\<rparr>) = grows s st"
  "grows s (st\<lparr>plugins := c\<rparr>) = grows s st"
  "grows s (st\<lparr>allExtensionPoints := d\<rparr>) = grows s st"
  "grows s (st\<lparr>allExtensions := e\<rparr>) = grows s st"
  "grows s (st\<lparr>availablePlugins := f\<rparr>) = grows s st"
  "grows s (st\<lparr>loadedPlugins := g\<rparr>) = grows s st"
  "grows s (st\<lparr>trace := h\<rparr>) = grows s st"
  by (simp_all add: grows_def)

lemma grows_upd [simp]:
  "grows s (upd_point p f st) = grows s st"
  "grows s (upd_ext e g st) = grows s st"
  "grows s (upd_plugin pl h st) = grows s st"
  "grows s (emit ev st) = grows s st"
  by (simp_all add: machine_defs)

lemma grows_new_promise [simp]:
  assumes "grows s st"
  shows "grows s (snd (new_promise ps n ext st))"
  using assms
  by (auto simp: grows_def new_promise_def list_all_iff)

lemma grows_promise_then [simp]:
  assumes "grows s st"
  shows "grows s (snd (promise_then q f r st))"
  using assms
  by (auto simp: grows_def promise_then_def new_promise_def list_all_iff)

lemma grows_Promise_all [simp]:
  assumes "grows s st"
  shows "grows s (snd (Promise_all qs st))"
  using assms
  by (auto simp: grows_def Promise_all_def new_promise_def list_all_iff)

lemma grows_simple [simp]:
  assumes "grows s st"
  shows "grows s (snd (Promise_resolve v st))"
    and "grows s (snd (System_import path st))"
    and "grows s (snd (js_call site f st))"
    and "grows s (snd (then_val x k st))"
  using assms
  by (simp_all add: Promise_resolve_def System_import_def js_call_def then_val_def Let_def
        split_def split: val.splits fn.splits)

lemma grows_call_member_then [simp]:
  assumes "grows s st"
  shows "grows s (snd (call_member_then site m name k st))"
  using assms
  by (simp add: call_member_then_def split_def split: sum.splits)

lemma grows_Extension [simp]:
  assumes "grows s st"
  shows "grows s (snd (Extension_load e st))"
    and "grows s (snd (Extension_initialize e st))"
  using assms
  by (simp_all add: Extension_load_defs Extension_initialize_def Let_def split_def)

lemma grows_ExtensionPoint [simp]:
  assumes "grows s st"
  shows "grows s (snd (ExtensionPoint_initialize p st))"
    and "grows s (snd (ExtensionPoint_connectExtension p e st))"
    and "grows s (snd (ExtensionPoint_connect p e st))"
  using assms
  by (simp_all add: ExtensionPoint_initialize_def ExtensionPoint_connectExtension_def
        ExtensionPoint_connect_def ExtensionPoint_load_def Let_def split_def)

lemma grows_connect_each [simp]:
  assumes "grows s st"
  shows "grows s (snd (connect_each p es st))"
  using assms
  by (induction es arbitrary: st) (simp_all add: split_def Let_def)

lemma grows_register [simp]:
  assumes "grows s st"
  shows "grows s (snd (loadExtensionPoint cfg st))"
    and "grows s (snd (loadExtension ecfg st))"
  using assms
  by (simp_all add: loadExtensionPoint_def loadExtension_def Let_def split_def
        split: option.splits)

lemma grows_Plugin_entry [simp]:
  assumes "grows s st"
  shows "grows s (snd (Plugin_loadExtensionPoint g i c st))"
    and "grows s (snd (Plugin_loadExtension g i e st))"
  using assms
  by (simp_all add: Plugin_loadExtensionPoint_def Plugin_loadExtension_def Let_def split_def)

lemma grows_Plugin_loadExtensionPoints [simp]:
  assumes "grows s st"
  shows "grows s (snd (Plugin_loadExtensionPoints g i cs st))"
  using assms
  by (induction cs arbitrary: i st) (simp_all add: split_def Let_def)

lemma grows_Plugin_loadExtensions [simp]:
  assumes "grows s st"
  shows "grows s (snd (Plugin_loadExtensions g i cs st))"
  using assms
  by (induction cs arbitrary: i st) (simp_all add: split_def Let_def)

lemma grows_Plugin_load [simp]:
  assumes "grows s st"
  shows "grows s (snd (Plugin_load g st))"
  using assms
  by (simp add: Plugin_load_def Let_def split_def split: option.splits)

lemma grows_loadPackage [simp]:
  assumes "grows s st"
  shows "grows s (snd (loadPackage name st))"
  using assms
  by (simp add: loadPackage_def Let_def split_def)

lemma grows_loadPackage_each [simp]:
  assumes "grows s st"
  shows "grows s (snd (loadPackage_each names st))"
  using assms
  by (induction names arbitrary: st) (simp_all add: split_def Let_def)

lemma grows_manager [simp]:
  assumes "grows s st"
  shows "grows s (snd (gatherPlugins st))"
    and "grows s (snd (fetchPlugins st))"
    and "grows s (snd (addPackage name config st))"
    and "grows s (snd (loadPlugin name st))"
    and "grows s (unloadPlugin name st)"
  using assms
  by (simp_all add: gatherPlugins_def fetchPlugins_def addPackage_def loadPlugin_def
        unloadPlugin_def Plugin_dispose_def Let_def split_def
        split: option.splits val.splits)

lemma grows_run_kont:
  assumes "grows s st"
  shows "grows s (snd (run_kont k v st))"
  using assms
  by (cases k) (simp_all add: split_def Let_def split: sum.splits val.splits)

lemma grows_promise_nth:
  assumes "grows s st" and "q < length (promises s)"
  shows "promises st ! q = promises s ! q"
proof -
  from assms(1) have "take (length (promises s)) (promises st) = promises s"
    by (simp add: grows_def)
  then have "take (length (promises s)) (promises st) ! q = promises s ! q"
    by simp
  with assms(2) show ?thesis by simp
qed

lemma grows_length:
  assumes "grows s st"
  shows "length (promises s) \<le> length (promises st)"
  using assms by (simp add: grows_def)

lemma grows_pool_cases:
  assumes "grows s st" and "x \<in> set (pool st)"
  shows "x \<in> set (pool s)
         \<or> length (promises s) \<le> target (snd x) \<and> target (snd x) < length (promises st)"
proof -
  have "pool st = take (length (pool s)) (pool st) @ drop (length (pool s)) (pool st)"
    by simp
  with assms(1) have "pool st = pool s @ drop (length (pool s)) (pool st)"
    by (simp add: grows_def)
  with assms(2) have "x \<in> set (pool s) \<or> x \<in> set (drop (length (pool s)) (pool st))"
    by (metis Un_iff set_append)
  with assms(1) show ?thesis
    by (auto simp: grows_def list_all_iff)
qed

lemma targets_wf_grows:
  assumes "targets_wf s" and "grows s st"
  shows "targets_wf st"
  unfolding targets_wf_def list_all_iff
proof
  fix x assume "x \<in> set (pool st)"
  from grows_pool_cases [OF assms(2) this] assms(1) grows_length [OF assms(2)]
  show "target (snd x) < length (promises st)"
    by (auto simp: targets_wf_def list_all_iff)
qed

lemma not_rejected_grows:
  assumes "not_rejected s d" and "grows s st"
  shows "not_rejected st d"
  using assms grows_promise_nth [OF assms(2), of d] grows_length [OF assms(2)]
  by (auto simp: not_rejected_def)

lemma caught_grows:
  assumes "caught s c" and "grows s st"
  shows "caught st c"
  unfolding caught_def list_all_iff
proof (intro conjI ballI)
  from assms show "not_rejected st c"
    by (auto simp: caught_def intro: not_rejected_grows)
next
  fix x assume "x \<in> set (pool st)"
  from grows_pool_cases [OF assms(2) this] assms(1)
  show "target (snd x) \<noteq> c \<or> snd x = Then None (Some K_console_error) c"
    by (auto simp: caught_def list_all_iff not_rejected_def)
qed

lemma all_caught_grows:
  assumes "all_caught s a" and "grows s st"
  shows "all_caught st a"
  unfolding all_caught_def list_all_iff
proof (intro conjI ballI)
  from assms show "not_rejected st a"
    by (auto simp: all_caught_def intro: not_rejected_grows)
next
  fix x assume "x \<in> set (pool st)"
  from grows_pool_cases [OF assms(2) this] assms(1)
  show "target (snd x) \<noteq> a \<or> snd x = AllElem a \<and> caught st (fst x)"
    by (auto simp: all_caught_def list_all_iff not_rejected_def intro: caught_grows [OF _ assms(2)])
qed

lemma load_safe_grows:
  assumes "load_safe s d" and "grows s st"
  shows "load_safe st d"
  unfolding load_safe_def list_all_iff
proof (intro conjI ballI)
  from assms show "not_rejected st d"
    by (auto simp: load_safe_def intro: not_rejected_grows)
next
  fix x assume "x \<in> set (pool st)"
  from grows_pool_cases [OF assms(2) this] assms(1)
  show "target (snd x) \<noteq> d \<or> is_plugin_load (snd x) d \<and> all_caught st (fst x)"
    by (auto simp: load_safe_def list_all_iff not_rejected_def
          intro: all_caught_grows [OF _ assms(2)])
qed

text \<open>The promise of a \<open>catch(console.error)\<close>, of a \<open>Promise.all\<close>, of \<open>Plugin.load\<close>.\<close>

lemma caught_new:
  assumes "targets_wf st"
  shows "caught (snd (promise_then t None (Some K_console_error) st))
           (fst (promise_then t None (Some K_console_error) st))"
  using assms
  by (auto simp: caught_def not_rejected_def targets_wf_def list_all_iff promise_then_def
        new_promise_def)

lemma caught_Plugin_entry:
  assumes "targets_wf st"
  shows "caught (snd (Plugin_loadExtensionPoint g i c st)) (fst (Plugin_loadExtensionPoint g i c st))"
    and "caught (snd (Plugin_loadExtension g i e st)) (fst (Plugin_loadExtension g i e st))"
proof -
  have w: "targets_wf st'" if "grows st st'" for st'
    using assms that by (rule targets_wf_grows)
  show "caught (snd (Plugin_loadExtensionPoint g i c st)) (fst (Plugin_loadExtensionPoint g i c st))"
    unfolding Plugin_loadExtensionPoint_def Let_def split_def
    by (rule caught_new, rule w, simp)
  show "caught (snd (Plugin_loadExtension g i e st)) (fst (Plugin_loadExtension g i e st))"
    unfolding Plugin_loadExtension_def Let_def split_def
    by (rule caught_new, rule w, simp)
qed

lemma caught_Plugin_loadExtensionPoints:
  assumes "targets_wf st"
  shows "\<forall>r\<in>set (fst (Plugin_loadExtensionPoints g i cs st)).
           caught (snd (Plugin_loadExtensionPoints g i cs st)) r"
  using assms
proof (induction cs arbitrary: i st)
  case Nil
  show ?case by simp
next
  case (Cons c cs)
  let ?st1 = "snd (Plugin_loadExtensionPoint g i c st)"
  have w1: "targets_wf ?st1"
    using Cons.prems by (rule targets_wf_grows) simp
  have "caught ?st1 (fst (Plugin_loadExtensionPoint g i c st))"
    using Cons.prems by (rule caught_Plugin_entry)
  then have "caught (snd (Plugin_loadExtensionPoints g (Suc i) cs ?st1))
               (fst (Plugin_loadExtensionPoint g i c st))"
    by (rule caught_grows) simp
  with Cons.IH [OF w1, of "Suc i"] show ?case
    by (simp add: split_def Let_def)
qed

lemma caught_Plugin_loadExtensions:
  assumes "targets_wf st"
  shows "\<forall>r\<in>set (fst (Plugin_loadExtensions g i cs st)).
           caught (snd (Plugin_loadExtensions g i cs st)) r"
  using assms
proof (induction cs arbitrary: i st)
  case Nil
  show ?case by simp
next
  case (Cons c cs)
  let ?st1 = "snd (Plugin_loadExtension g i c st)"
  have w1: "targets_wf ?st1"
    using Cons.prems by (rule targets_wf_grows) simp
  have "caught ?st1 (fst (Plugin_loadExtension g i c st))"
    using Cons.prems by (rule caught_Plugin_entry)
  then have "caught (snd (Plugin_loadExtensions g (Suc i) cs ?st1))
               (fst (Plugin_loadExtension g i c st))"
    by (rule caught_grows) simp
  with Cons.IH [OF w1, of "Suc i"] show ?case
    by (simp add: split_def Let_def)
qed

lemma all_caught_new:
  assumes wf: "targets_wf st" and cs: "\<forall>c\<in>set cs. caught st c"
  shows "all_caught (snd (Promise_all cs st)) (fst (Promise_all cs st))"
proof -
  let ?st' = "snd (Promise_all cs st)"
  have g: "grows st ?st'" by simp
  have c': "caught ?st' c" if "c \<in> set cs" for c
    using cs that g by (auto intro: caught_grows)
  have p: "pool ?st' = pool st @ map (\<lambda>p. (p, AllElem (length (promises st)))) cs"
    and a: "fst (Promise_all cs st) = length (promises st)"
    by (simp_all add: Promise_all_def new_promise_def Let_def)
  have n: "not_rejected ?st' (length (promises st))"
    by (simp add: not_rejected_def Promise_all_def new_promise_def Let_def)
  show ?thesis
    unfolding all_caught_def list_all_iff a
  proof (intro conjI ballI)
    show "not_rejected ?st' (length (promises st))" by (rule n)
  next
    fix x assume "x \<in> set (pool ?st')"
    then have "x \<in> set (pool st) \<or> (\<exists>c\<in>set cs. x = (c, AllElem (length (promises st))))"
      by (auto simp: p)
    with wf c' show "target (snd x) \<noteq> length (promises st)
            \<or> snd x = AllElem (length (promises st)) \<and> caught ?st' (fst x)"
      by (auto simp: targets_wf_def list_all_iff)
  qed
qed

lemma load_safe_new:
  assumes wf: "targets_wf st" and a: "all_caught st a"
  shows "load_safe (snd (promise_then a (Some (K_plugin_load g)) None st))
           (fst (promise_then a (Some (K_plugin_load g)) None st))"
proof -
  let ?st' = "snd (promise_then a (Some (K_plugin_load g)) None st)"
  have a': "all_caught ?st' a"
    using a by (rule all_caught_grows) simp
  have p: "pool ?st' = pool st @ [(a, Then (Some (K_plugin_load g)) None (length (promises st)))]"
    and d: "fst (promise_then a (Some (K_plugin_load g)) None st) = length (promises st)"
    by (simp_all add: promise_then_def new_promise_def Let_def)
  have n: "not_rejected ?st' (length (promises st))"
    by (simp add: not_rejected_def promise_then_def new_promise_def Let_def)
  show ?thesis
    unfolding load_safe_def list_all_iff d
  proof (intro conjI ballI)
    show "not_rejected ?st' (length (promises st))" by (rule n)
  next
    fix x assume "x \<in> set (pool ?st')"
    then have "x \<in> set (pool st)
                 \<or> x = (a, Then (Some (K_plugin_load g)) None (length (promises st)))"
      by (auto simp: p)
    with wf a' show "target (snd x) \<noteq> length (promises st)
            \<or> is_plugin_load (snd x) (length (promises st)) \<and> all_caught ?st' (fst x)"
      by (auto simp: targets_wf_def list_all_iff)
  qed
qed

lemma load_safe_Plugin_load:
  assumes "targets_wf st"
  shows "load_safe (snd (Plugin_load g st)) (fst (Plugin_load g st))"
proof -
  let ?r1 = "case g_extensionPoints (plugins st ! g) of
               None \<Rightarrow> ([], st) | Some l \<Rightarrow> Plugin_loadExtensionPoints g 0 l st"
  let ?st1 = "snd ?r1"
  let ?r2 = "case g_extensions (plugins ?st1 ! g) of
               None \<Rightarrow> ([], ?st1) | Some l \<Rightarrow> Plugin_loadExtensions g 0 l ?st1"
  let ?st2 = "snd ?r2"
  have g1: "grows st ?st1" by (simp split: option.splits)
  have w1: "targets_wf ?st1" using assms g1 by (rule targets_wf_grows)
  have g2: "grows ?st1 ?st2" by (simp split: option.splits)
  have w2: "targets_wf ?st2" using w1 g2 by (rule targets_wf_grows)
  have c1: "\<forall>r\<in>set (fst ?r1). caught ?st1 r"
    using caught_Plugin_loadExtensionPoints [OF assms] by (simp split: option.splits)
  have c2: "\<forall>r\<in>set (fst ?r2). caught ?st2 r"
    using caught_Plugin_loadExtensions [OF w1] by (simp split: option.splits)
  from c1 g2 have "\<forall>r\<in>set (fst ?r1). caught ?st2 r"
    by (auto intro: caught_grows)
  with c2 have cs: "\<forall>r\<in>set (fst ?r1 @ fst ?r2). caught ?st2 r"
    by auto
  let ?r3 = "Promise_all (fst ?r1 @ fst ?r2) ?st2"
  have a: "all_caught (snd ?r3) (fst ?r3)"
    using w2 cs by (rule all_caught_new)
  have w3: "targets_wf (snd ?r3)"
    using w2 by (rule targets_wf_grows) simp
  have "load_safe (snd (promise_then (fst ?r3) (Some (K_plugin_load g)) None (snd ?r3)))
          (fst (promise_then (fst ?r3) (Some (K_plugin_load g)) None (snd ?r3)))"
    using w3 a by (rule load_safe_new)
  then show ?thesis
    by (simp add: Plugin_load_def Let_def split_def)
qed

text \<open>One step of the machine.\<close>

lemma steps_refl [simp]: "steps_to t s s"
  by (simp add: steps_to_def list_all_iff)

lemma steps_trans:
  assumes "steps_to t s1 s2" and "steps_to t s2 s3"
  shows "steps_to t s1 s3"
  unfolding steps_to_def list_all_iff
proof (intro conjI allI impI ballI)
  show "length (promises s1) \<le> length (promises s3)"
    using assms by (simp add: steps_to_def)
next
  fix q assume "q < length (promises s1)"
  with assms show "external (promises s3 ! q) = external (promises s1 ! q)"
    by (simp add: steps_to_def)
next
  fix q assume "q < length (promises s1)" and "q \<noteq> t"
  with assms show "pstate (promises s3 ! q) = pstate (promises s1 ! q)"
    by (simp add: steps_to_def)
next
  fix x assume "x \<in> set (pool s3)"
  with assms(2) have "x \<in> set (pool s2)
      \<or> length (promises s2) \<le> target (snd x) \<and> target (snd x) < length (promises s3)
      \<or> snd x = Adopt t"
    by (simp add: steps_to_def list_all_iff)
  moreover have "x \<in> set (pool s1)
      \<or> length (promises s1) \<le> target (snd x) \<and> target (snd x) < length (promises s2)
      \<or> snd x = Adopt t" if "x \<in> set (pool s2)"
    using assms(1) that by (simp add: steps_to_def list_all_iff)
  moreover have "length (promises s1) \<le> length (promises s2)"
    and "length (promises s2) \<le> length (promises s3)"
    using assms by (simp_all add: steps_to_def)
  ultimately show "x \<in> set (pool s1)
      \<or> length (promises s1) \<le> target (snd x) \<and> target (snd x) < length (promises s3)
      \<or> snd x = Adopt t"
    by auto
qed

lemma steps_grows:
  assumes "grows s st"
  shows "steps_to t s st"
  unfolding steps_to_def list_all_iff
  using grows_length [OF assms] grows_promise_nth [OF assms] grows_pool_cases [OF assms]
  by auto

lemma steps_settle: "steps_to p s (settle p out s)"
  by (auto simp: steps_to_def settle_def list_all_iff nth_list_update)

lemma steps_remove:
  assumes "set pl \<subseteq> set (pool s)"
  shows "steps_to t s (s\<lparr>pool := pl\<rparr>)"
  using assms by (auto simp: steps_to_def list_all_iff)

lemma steps_finish: "steps_to d (snd res) (finish d res)"
  by (cases res)
     (auto simp: finish_def resolve_with_def steps_to_def settle_def list_all_iff nth_list_update
        split: sum.splits val.splits)

lemma steps_run_reaction: "steps_to (target r) s (run_reaction r out s)"
proof (cases out)
  case Pending
  then show ?thesis by simp
next
  case (Fulfilled v)
  show ?thesis
  proof (cases r)
    case (Then f h d)
    show ?thesis
    proof (cases f)
      case None
      with Then Fulfilled show ?thesis by (simp add: steps_settle)
    next
      case (Some k)
      have "steps_to d s (snd (run_kont k v s))"
        by (rule steps_grows, rule grows_run_kont) simp
      then have "steps_to d s (finish d (run_kont k v s))"
        by (rule steps_trans) (rule steps_finish)
      with Then Fulfilled Some show ?thesis by simp
    qed
  next
    case (AllElem d)
    with Fulfilled show ?thesis
      by (auto simp: steps_to_def settle_def list_all_iff nth_list_update Let_def)
  next
    case (Adopt d)
    with Fulfilled show ?thesis by (simp add: steps_settle)
  qed
next
  case (Rejected err)
  show ?thesis
  proof (cases r)
    case (Then f h d)
    show ?thesis
    proof (cases h)
      case None
      with Then Rejected show ?thesis by (simp add: steps_settle)
    next
      case (Some k)
      have "steps_to d s (snd (run_kont k err s))"
        by (rule steps_grows, rule grows_run_kont) simp
      then have "steps_to d s (finish d (run_kont k err s))"
        by (rule steps_trans) (rule steps_finish)
      with Then Rejected Some show ?thesis by simp
    qed
  next
    case (AllElem d)
    with Rejected show ?thesis by (simp add: steps_settle)
  next
    case (Adopt d)
    with Rejected show ?thesis by (simp add: steps_settle)
  qed
qed

lemma targets_wf_steps:
  assumes "targets_wf s" and "steps_to t s st" and "t < length (promises s)"
  shows "targets_wf st"
  unfolding targets_wf_def list_all_iff
proof
  fix x assume "x \<in> set (pool st)"
  with assms(2) have "x \<in> set (pool s)
      \<or> length (promises s) \<le> target (snd x) \<and> target (snd x) < length (promises st)
      \<or> snd x = Adopt t"
    by (simp add: steps_to_def list_all_iff)
  moreover have "length (promises s) \<le> length (promises st)"
    using assms(2) by (simp add: steps_to_def)
  ultimately show "target (snd x) < length (promises st)"
    using assms(1,3) by (auto simp: targets_wf_def list_all_iff)
qed

lemma not_rejected_steps:
  assumes "not_rejected s c" and "steps_to t s st" and "t \<noteq> c"
  shows "not_rejected st c"
  using assms by (auto simp: not_rejected_def steps_to_def)

lemma steps_pool_cases:
  assumes "steps_to t s st" and "x \<in> set (pool st)" and "target (snd x) < length (promises s)"
    and "t = target (snd x) \<Longrightarrow> set (pool st) \<subseteq> set (pool s)"
  shows "x \<in> set (pool s)"
proof -
  from assms(1,2) have "x \<in> set (pool s)
      \<or> length (promises s) \<le> target (snd x) \<and> target (snd x) < length (promises st)
      \<or> snd x = Adopt t"
    by (simp add: steps_to_def list_all_iff)
  with assms(2,3,4) show ?thesis by auto
qed

lemma caught_step:
  assumes c: "caught s c" and st: "steps_to t s st"
    and t: "t = c \<Longrightarrow> not_rejected st c \<and> set (pool st) \<subseteq> set (pool s)"
  shows "caught st c"
  unfolding caught_def list_all_iff
proof (intro conjI ballI)
  show "not_rejected st c"
    using c st t by (cases "t = c") (auto simp: caught_def intro: not_rejected_steps)
next
  fix x assume x: "x \<in> set (pool st)"
  show "target (snd x) \<noteq> c \<or> snd x = Then None (Some K_console_error) c"
  proof (cases "target (snd x) = c")
    case True
    with c have "target (snd x) < length (promises s)"
      by (simp add: caught_def not_rejected_def)
    with st x have "x \<in> set (pool s)"
      by (rule steps_pool_cases) (use True t in simp)
    with c show ?thesis by (auto simp: caught_def list_all_iff)
  qed simp
qed

lemma all_caught_step:
  assumes a: "all_caught s a" and st: "steps_to t s st"
    and t: "t = a \<Longrightarrow> not_rejected st a \<and> set (pool st) \<subseteq> set (pool s)"
    and c: "\<And>c. caught s c \<Longrightarrow> caught st c"
  shows "all_caught st a"
  unfolding all_caught_def list_all_iff
proof (intro conjI ballI)
  show "not_rejected st a"
    using a st t by (cases "t = a") (auto simp: all_caught_def intro: not_rejected_steps)
next
  fix x assume x: "x \<in> set (pool st)"
  show "target (snd x) \<noteq> a \<or> snd x = AllElem a \<and> caught st (fst x)"
  proof (cases "target (snd x) = a")
    case True
    with a have "target (snd x) < length (promises s)"
      by (simp add: all_caught_def not_rejected_def)
    with st x have "x \<in> set (pool s)"
      by (rule steps_pool_cases) (use True t in simp)
    with a c show ?thesis by (auto simp: all_caught_def list_all_iff)
  qed simp
qed

lemma load_safe_step:
  assumes d: "load_safe s d" and st: "steps_to t s st"
    and t: "t = d \<Longrightarrow> not_rejected st d \<and> set (pool st) \<subseteq> set (pool s)"
    and a: "\<And>a. all_caught s a \<Longrightarrow> all_caught st a"
  shows "load_safe st d"
  unfolding load_safe_def list_all_iff
proof (intro conjI ballI)
  show "not_rejected st d"
    using d st t by (cases "t = d") (auto simp: load_safe_def intro: not_rejected_steps)
next
  fix x assume x: "x \<in> set (pool st)"
  show "target (snd x) \<noteq> d \<or> is_plugin_load (snd x) d \<and> all_caught st (fst x)"
  proof (cases "target (snd x) = d")
    case True
    with d have "target (snd x) < length (promises s)"
      by (simp add: load_safe_def not_rejected_def)
    with st x have "x \<in> set (pool s)"
      by (rule steps_pool_cases) (use True t in simp)
    with d a show ?thesis by (auto simp: load_safe_def list_all_iff)
  qed simp
qed

text \<open>The three kinds of reaction that settle the promises of \<open>Plugin.load\<close>.\<close>

lemma run_catch:
  assumes "not_rejected s c"
  shows "not_rejected (run_reaction (Then None (Some K_console_error) c) out s) c"
  using assms
  by (cases out)
     (simp_all add: not_rejected_def finish_def resolve_with_def settle_def emit_def
        nth_list_update split: pstate.splits)

lemma pool_catch: "pool (run_reaction (Then None (Some K_console_error) c) out s) = pool s"
  by (cases out) (simp_all add: finish_def resolve_with_def settle_def emit_def)

lemma run_all_elem:
  assumes "not_rejected s a" and "\<forall>err. out \<noteq> Rejected err"
  shows "not_rejected (run_reaction (AllElem a) out s) a"
  using assms
  by (cases out)
     (simp_all add: not_rejected_def settle_def Let_def nth_list_update split: pstate.splits)

lemma pool_all_elem: "pool (run_reaction (AllElem a) out s) = pool s"
  by (cases out) (simp_all add: settle_def Let_def)

lemma run_plugin_load:
  assumes "not_rejected s d" and "\<forall>err. out \<noteq> Rejected err"
  shows "not_rejected (run_reaction (Then (Some (K_plugin_load g)) None d) out s) d"
  using assms
  by (cases out)
     (simp_all add: not_rejected_def finish_def resolve_with_def settle_def
        nth_list_update split: pstate.splits)

lemma pool_plugin_load:
  "pool (run_reaction (Then (Some (K_plugin_load g)) None d) out s) = pool s"
  by (cases out) (simp_all add: finish_def resolve_with_def settle_def)

lemma removed_subset: "set (take i xs @ drop (Suc i) xs) \<subseteq> set xs"
  by (auto dest: in_set_takeD in_set_dropD)

lemma not_rejected_pool [simp]: "not_rejected (s\<lparr>pool := pl\<rparr>) c = not_rejected s c"
  by (simp add: not_rejected_def)

lemma steps_RunReaction:
  assumes "pool st ! i = (src, r)"
  shows "steps_to (target r) st (exec (RunReaction i) st)"
proof -
  have "steps_to (target r) st
          (run_reaction r out (st\<lparr>pool := take i (pool st) @ drop (Suc i) (pool st)\<rparr>))" for out
    by (rule steps_trans [OF steps_remove steps_run_reaction]) (rule removed_subset)
  with assms show ?thesis by simp
qed

lemma pool_RunReaction:
  assumes "pool st ! i = (src, r)"
    and "\<And>out s. out = pstate (promises st ! src) \<Longrightarrow> out \<noteq> Pending
           \<Longrightarrow> pool (run_reaction r out s) = pool s"
  shows "set (pool (exec (RunReaction i) st)) \<subseteq> set (pool st)"
  using assms removed_subset [of i "pool st"] by simp

lemma targets_wf_exec:
  assumes "targets_wf st"
  shows "targets_wf (exec a st)"
proof (cases a)
  case (Settle p out)
  show ?thesis
  proof (cases "p < length (promises st) \<and> external (promises st ! p) \<and> out \<noteq> Pending")
    case True
    with assms steps_settle [of p st out] Settle show ?thesis
      by (auto intro: targets_wf_steps)
  next
    case False
    with assms Settle show ?thesis by auto
  qed
next
  case (RunReaction i)
  show ?thesis
  proof (cases "i < length (pool st)")
    case True
    obtain src r where sr: "pool st ! i = (src, r)" by (cases "pool st ! i")
    from True sr have "(src, r) \<in> set (pool st)" by (metis nth_mem)
    with assms have "target r < length (promises st)"
      by (auto simp: targets_wf_def list_all_iff)
    with assms steps_RunReaction [OF sr] RunReaction show ?thesis
      by (auto intro: targets_wf_steps)
  next
    case False
    with assms RunReaction show ?thesis by simp
  qed
qed (use assms in \<open>auto intro: targets_wf_grows\<close>)

lemma caught_exec:
  assumes c: "caught st c"
  shows "caught (exec a st) c"
proof (cases a)
  case (Settle p out)
  show ?thesis
  proof (cases "p < length (promises st) \<and> external (promises st ! p) \<and> out \<noteq> Pending")
    case True
    with c have "p \<noteq> c" by (auto simp: caught_def not_rejected_def)
    with c steps_settle [of p st out] have "caught (settle p out st) c"
      by (auto intro: caught_step)
    with True Settle show ?thesis by simp
  next
    case False
    with c Settle show ?thesis by auto
  qed
next
  case (RunReaction i)
  show ?thesis
  proof (cases "i < length (pool st)")
    case True
    obtain src r where sr: "pool st ! i = (src, r)" by (cases "pool st ! i")
    from True sr have m: "(src, r) \<in> set (pool st)" by (metis nth_mem)
    have "caught (exec (RunReaction i) st) c"
      using c steps_RunReaction [OF sr]
    proof (rule caught_step)
      assume "target r = c"
      with c m have r: "r = Then None (Some K_console_error) c"
        by (auto simp: caught_def list_all_iff)
      from c have n: "not_rejected st c" by (simp add: caught_def)
      have "not_rejected (exec (RunReaction i) st) c"
        using True sr r n by (simp add: run_catch)
      moreover have "set (pool (exec (RunReaction i) st)) \<subseteq> set (pool st)"
        using sr by (rule pool_RunReaction) (simp add: r pool_catch)
      ultimately show "not_rejected (exec (RunReaction i) st) c
          \<and> set (pool (exec (RunReaction i) st)) \<subseteq> set (pool st)" ..
    qed
    with RunReaction show ?thesis by simp
  next
    case False
    with c RunReaction show ?thesis by simp
  qed
qed (use c in \<open>auto intro: caught_grows\<close>)

lemma all_caught_exec:
  assumes a: "all_caught st p"
  shows "all_caught (exec a st) p"
proof (cases a)
  case (Settle q out)
  show ?thesis
  proof (cases "q < length (promises st) \<and> external (promises st ! q) \<and> out \<noteq> Pending")
    case True
    with a have "q \<noteq> p" by (auto simp: all_caught_def not_rejected_def)
    with a steps_settle [of q st out] caught_exec [of st _ "Settle q out"] True
    have "all_caught (settle q out st) p"
      by (auto intro: all_caught_step)
    with True Settle show ?thesis by simp
  next
    case False
    with a Settle show ?thesis by auto
  qed
next
  case (RunReaction i)
  show ?thesis
  proof (cases "i < length (pool st)")
    case True
    obtain src r where sr: "pool st ! i = (src, r)" by (cases "pool st ! i")
    from True sr have m: "(src, r) \<in> set (pool st)" by (metis nth_mem)
    have "all_caught (exec (RunReaction i) st) p"
      using a steps_RunReaction [OF sr]
    proof (rule all_caught_step)
      assume "target r = p"
      with a m have r: "r = AllElem p" and s: "caught st src"
        by (auto simp: all_caught_def list_all_iff)
      from s have o: "\<forall>err. pstate (promises st ! src) \<noteq> Rejected err"
        and l: "src < length (promises st)"
        by (auto simp: caught_def not_rejected_def split: pstate.splits)
      from a have n: "not_rejected st p" by (simp add: all_caught_def)
      have "not_rejected (exec (RunReaction i) st) p"
        using True sr r n o by (simp add: run_all_elem)
      moreover have "set (pool (exec (RunReaction i) st)) \<subseteq> set (pool st)"
        using sr by (rule pool_RunReaction) (simp add: r pool_all_elem)
      ultimately show "not_rejected (exec (RunReaction i) st) p
          \<and> set (pool (exec (RunReaction i) st)) \<subseteq> set (pool st)" ..
    next
      fix c assume "caught st c"
      then show "caught (exec (RunReaction i) st) c" by (rule caught_exec)
    qed
    with RunReaction show ?thesis by simp
  next
    case False
    with a RunReaction show ?thesis by simp
  qed
qed (use a in \<open>auto intro: all_caught_grows\<close>)

lemma load_safe_exec:
  assumes d: "load_safe st p"
  shows "load_safe (exec a st) p"
proof (cases a)
  case (Settle q out)
  show ?thesis
  proof (cases "q < length (promises st) \<and> external (promises st ! q) \<and> out \<noteq> Pending")
    case True
    with d have "q \<noteq> p" by (auto simp: load_safe_def not_rejected_def)
    with d steps_settle [of q st out] all_caught_exec [of st _ "Settle q out"] True
    have "load_safe (settle q out st) p"
      by (auto intro: load_safe_step)
    with True Settle show ?thesis by simp
  next
    case False
    with d Settle show ?thesis by auto
  qed
next
  case (RunReaction i)
  show ?thesis
  proof (cases "i < length (pool st)")
    case True
    obtain src r where sr: "pool st ! i = (src, r)" by (cases "pool st ! i")
    from True sr have m: "(src, r) \<in> set (pool st)" by (metis nth_mem)
    have "load_safe (exec (RunReaction i) st) p"
      using d steps_RunReaction [OF sr]
    proof (rule load_safe_step)
      assume "target r = p"
      with d m have "is_plugin_load r p" and s: "all_caught st src"
        by (auto simp: load_safe_def list_all_iff)
      then obtain g where r: "r = Then (Some (K_plugin_load g)) None p"
        by (cases "(r, p)" rule: is_plugin_load.cases) auto
      from s have o: "\<forall>err. pstate (promises st ! src) \<noteq> Rejected err"
        and l: "src < length (promises st)"
        by (auto simp: all_caught_def not_rejected_def split: pstate.splits)
      from d have n: "not_rejected st p" by (simp add: load_safe_def)
      have "not_rejected (exec (RunReaction i) st) p"
        using True sr r n o by (simp add: run_plugin_load)
      moreover have "set (pool (exec (RunReaction i) st)) \<subseteq> set (pool st)"
        using sr by (rule pool_RunReaction) (simp add: r pool_plugin_load)
      ultimately show "not_rejected (exec (RunReaction i) st) p
          \<and> set (pool (exec (RunReaction i) st)) \<subseteq> set (pool st)" ..
    next
      fix c assume "all_caught st c"
      then show "all_caught (exec (RunReaction i) st) c" by (rule all_caught_exec)
    qed
    with RunReaction show ?thesis by simp
  next
    case False
    with d RunReaction show ?thesis by simp
  qed
qed (use d in \<open>auto intro: load_safe_grows\<close>)

lemma targets_wf_run:
  assumes "targets_wf st"
  shows "targets_wf (run acts st)"
  using assms by (induction acts arbitrary: st) (simp_all add: run_def targets_wf_exec)

lemma load_safe_run:
  assumes "load_safe st p"
  shows "load_safe (run acts st) p"
  using assms by (induction acts arbitrary: st) (simp_all add: run_def load_safe_exec)

lemma targets_wf_init: "targets_wf (init npm gn)"
  by (simp add: targets_wf_def init_def)

lemma Plugin_load_never_rejected:
  "pstate (promises (run acts2 (snd (Plugin_load g (run acts1 (init npm gn)))))
            ! fst (Plugin_load g (run acts1 (init npm gn)))) \<noteq> Rejected err"
proof -
  have "targets_wf (run acts1 (init npm gn))"
    using targets_wf_init by (rule targets_wf_run)
  then have "load_safe (snd (Plugin_load g (run acts1 (init npm gn))))
               (fst (Plugin_load g (run acts1 (init npm gn))))"
    by (rule load_safe_Plugin_load)
  then have "load_safe (run acts2 (snd (Plugin_load g (run acts1 (init npm gn)))))
               (fst (Plugin_load g (run acts1 (init npm gn))))"
    by (rule load_safe_run)
  then show ?thesis
    by (auto simp: load_safe_def not_rejected_def split: pstate.splits)
qed

text \<open>Every declared entry is registered by the synchronous part of \<open>Plugin.load\<close>.\<close>

lemma plugins_connect [simp]:
  "plugins (snd (ExtensionPoint_connect p e st)) = plugins st"
  by (simp add: connect_defs Extension_load_defs machine_defs Let_def)

lemma plugins_connect_each [simp]: "plugins (snd (connect_each p es st)) = plugins st"
  by (induction es arbitrary: st) (simp_all add: split_def Let_def)

lemma plugins_loadExtensionPoint [simp]:
  "plugins (snd (loadExtensionPoint cfg st)) = plugins st"
  by (simp add: loadExtensionPoint_def machine_defs Let_def split_def split: option.splits)

lemma plugins_loadExtension [simp]: "plugins (snd (loadExtension cfg st)) = plugins st"
  by (simp add: loadExtension_def machine_defs Let_def split_def split: option.splits)

lemma plugins_promise_then [simp]: "plugins (snd (promise_then p f r st)) = plugins st"
  by (simp add: machine_defs Let_def)

lemma view_sizes:
  "length (exts st) = fst (snd (snd (registry_view st)))"
  "length (points st) = fst (snd (snd (snd (registry_view st))))"
  by (simp_all add: registry_view_def)

lemma sizes_Plugin_loadExtensionPoint:
  "length (points (snd (Plugin_loadExtensionPoint g i c st))) = Suc (length (points st))"
  "length (exts (snd (Plugin_loadExtensionPoint g i c st))) = length (exts st)"
  "g_extensions (plugins (snd (Plugin_loadExtensionPoint g i c st)) ! g)
     = g_extensions (plugins st ! g)"
proof -
  have "registry_view (snd (Plugin_loadExtensionPoint g i c st))
          = registry_view (snd (loadExtensionPoint
              (c\<lparr>pt_module := Some (if pt_module c \<noteq> None
                    then g_name (plugins st ! g) @ ''/'' @ js_str (pt_module c)
                    else g_module (plugins st ! g))\<rparr>)
              (upd_plugin g (\<lambda>x. x\<lparr>g_extensionPoints := map_option
                  (\<lambda>l. l[i := c\<lparr>pt_module := Some (if pt_module c \<noteq> None
                    then g_name (plugins st ! g) @ ''/'' @ js_str (pt_module c)
                    else g_module (plugins st ! g))\<rparr>]) (g_extensionPoints x)\<rparr>) st)))"
    unfolding Plugin_loadExtensionPoint_def Let_def split_def by simp
  then show "length (points (snd (Plugin_loadExtensionPoint g i c st))) = Suc (length (points st))"
    and "length (exts (snd (Plugin_loadExtensionPoint g i c st))) = length (exts st)"
    by (simp_all add: view_sizes view_loadExtensionPoint upd_plugin_def)
  show "g_extensions (plugins (snd (Plugin_loadExtensionPoint g i c st)) ! g)
          = g_extensions (plugins st ! g)"
    unfolding Plugin_loadExtensionPoint_def Let_def split_def
    by (cases "g < length (plugins st)") (simp_all add: upd_plugin_def list_update_beyond)
qed

lemma sizes_loadExtension:
  "length (points (snd (loadExtension cfg st))) = length (points st)"
  "length (exts (snd (loadExtension cfg st))) = Suc (length (exts st))"
proof -
  have "length (points (snd (loadExtension cfg st))) = length (points st)
        \<and> length (exts (snd (loadExtension cfg st))) = Suc (length (exts st))"
  proof (cases "map_of (allExtensionPoints st) (ext_point cfg)")
    case None
    from view_loadExtension_queued [OF this] show ?thesis by (simp add: view_sizes)
  next
    case (Some p)
    from view_loadExtension_connected [OF this] show ?thesis by (simp add: view_sizes)
  qed
  then show "length (points (snd (loadExtension cfg st))) = length (points st)"
    and "length (exts (snd (loadExtension cfg st))) = Suc (length (exts st))"
    by simp_all
qed

lemma sizes_Plugin_loadExtension:
  "length (points (snd (Plugin_loadExtension g i x st))) = length (points st)"
  "length (exts (snd (Plugin_loadExtension g i x st))) = Suc (length (exts st))"
proof -
  have v: "registry_view (snd (promise_then p (Some k) None
              (snd (promise_then q None (Some h) s)))) = registry_view s" for p q k h s
    by simp
  show "length (points (snd (Plugin_loadExtension g i x st))) = length (points st)"
    unfolding Plugin_loadExtension_def Let_def split_def
    by (simp add: view_sizes(2) [of "snd (promise_then _ _ _ _)"] view_sizes(2) [symmetric]
          sizes_loadExtension upd_plugin_def)
  show "length (exts (snd (Plugin_loadExtension g i x st))) = Suc (length (exts st))"
    unfolding Plugin_loadExtension_def Let_def split_def
    by (simp add: view_sizes(1) [of "snd (promise_then _ _ _ _)"] view_sizes(1) [symmetric]
          sizes_loadExtension upd_plugin_def)
qed

lemma sizes_Plugin_loadExtensionPoints:
  "length (points (snd (Plugin_loadExtensionPoints g i cs st))) = length (points st) + length cs
   \<and> length (exts (snd (Plugin_loadExtensionPoints g i cs st))) = length (exts st)
   \<and> g_extensions (plugins (snd (Plugin_loadExtensionPoints g i cs st)) ! g)
       = g_extensions (plugins st ! g)"
  by (induction cs arbitrary: i st)
     (simp_all add: split_def Let_def sizes_Plugin_loadExtensionPoint)

lemma sizes_Plugin_loadExtensions:
  "length (points (snd (Plugin_loadExtensions g i xs st))) = length (points st)
   \<and> length (exts (snd (Plugin_loadExtensions g i xs st))) = length (exts st) + length xs"
  by (induction xs arbitrary: i st)
     (simp_all add: split_def Let_def sizes_Plugin_loadExtension)

lemma sizes_Plugin_load:
  "length (points (snd (Plugin_load g st)))
     = length (points st)
       + (case g_extensionPoints (plugins st ! g) of None \<Rightarrow> 0 | Some l \<Rightarrow> length l)"
  "length (exts (snd (Plugin_load g st)))
     = length (exts st)
       + (case g_extensions (plugins st ! g) of None \<Rightarrow> 0 | Some l \<Rightarrow> length l)"
proof -
  have p: "length (points (snd (promise_then a f r (snd (Promise_all ps s))))) = length (points s)"
    and e: "length (exts (snd (promise_then a f r (snd (Promise_all ps s))))) = length (exts s)"
    for a f r ps s
    by (simp_all add: machine_defs Let_def)
  show "length (points (snd (Plugin_load g st)))
     = length (points st)
       + (case g_extensionPoints (plugins st ! g) of None \<Rightarrow> 0 | Some l \<Rightarrow> length l)"
    unfolding Plugin_load_def Let_def split_def
    by (simp add: p sizes_Plugin_loadExtensionPoints sizes_Plugin_loadExtensions
          split: option.splits)
  show "length (exts (snd (Plugin_load g st)))
     = length (exts st)
       + (case g_extensions (plugins st ! g) of None \<Rightarrow> 0 | Some l \<Rightarrow> length l)"
    unfolding Plugin_load_def Let_def split_def
    by (simp add: e sizes_Plugin_loadExtensionPoints sizes_Plugin_loadExtensions
          split: option.splits)
qed

text \<open>The promise of each entry is the promise of \<open>catch\<close>, which logs and fulfils.\<close>

lemma entry_catch:
  "snd (last (pool (snd (Plugin_loadExtensionPoint g i c st))))
     = Then None (Some K_console_error) (fst (Plugin_loadExtensionPoint g i c st))"
  "snd (last (pool (snd (Plugin_loadExtension g i x st))))
     = Then None (Some K_console_error) (fst (Plugin_loadExtension g i x st))"
  unfolding Plugin_loadExtensionPoint_def Plugin_loadExtension_def Let_def split_def
  by (simp_all add: promise_then_def new_promise_def Let_def)

lemma catch_logs:
  "run_reaction (Then None (Some K_console_error) d) (Rejected e) st
     = settle d (Fulfilled VUndefined) (emit (ConsoleError e) st)"
  by (simp add: finish_def resolve_with_def)

text \<open>The plugin \<open>baz\<close>: the states of the example, written out.\<close>

lemma baz_waiting_eq:
  "baz_waiting =
    \<lparr>promises =
        [\<lparr>pstate = Fulfilled (VPoint 0), remaining = 0, external = False\<rparr>,
         \<lparr>pstate = Fulfilled VUndefined, remaining = 0, external = False\<rparr>,
         \<lparr>pstate = Fulfilled VUndefined, remaining = 0, external = False\<rparr>,
         \<lparr>pstate =
            Fulfilled
             (VModule [(''addItem'', VFunction (Returns (VForeign 1 True)))]),
            remaining = 0, external = True\<rparr>,
         \<lparr>pstate = Fulfilled VUndefined, remaining = 0, external = False\<rparr>,
         \<lparr>pstate = Pending, remaining = 0, external = False\<rparr>,
         \<lparr>pstate = Pending, remaining = 0, external = False\<rparr>,
         \<lparr>pstate = Pending, remaining = 0, external = False\<rparr>,
         \<lparr>pstate = Pending, remaining = 0, external = False\<rparr>,
         \<lparr>pstate = Pending, remaining = 0, external = True\<rparr>,
         \<lparr>pstate = Pending, remaining = 0, external = False\<rparr>,
         \<lparr>pstate = Pending, remaining = 0, external = False\<rparr>,
         \<lparr>pstate = Pending, remaining = 0, external = False\<rparr>,
         \<lparr>pstate = Pending, remaining = 0, external = False\<rparr>,
         \<lparr>pstate = Pending, remaining = 0, external = False\<rparr>,
         \<lparr>pstate = Pending, remaining = 2, external = False\<rparr>,
         \<lparr>pstate = Pending, remaining = 0, external = False\<rparr>,
         \<lparr>pstate = Fulfilled VUndefined, remaining = 0, external = False\<rparr>,
         \<lparr>pstate = Pending, remaining = 0, external = True\<rparr>,
         \<lparr>pstate = Pending, remaining = 0, external = False\<rparr>,
         \<lparr>pstate = Fulfilled VUndefined, remaining = 0, external = False\<rparr>,
         \<lparr>pstate = Pending, remaining = 1, external = False\<rparr>,
         \<lparr>pstate = Pending, remaining = 0, external = False\<rparr>,
         \<lparr>pstate = Pending, remaining = 0, external = False\<rparr>],
        pool =
          [(5, Then (Some (K_return (VExt 0))) None 6),
           (6, Then (Some (K_plugin_result 0)) None 7),
           (7, Then None (Some K_console_error) 8),
           (9, Then (Some (K_load 0)) None 10),
           (10, Then (Some (K_connect 0 1)) None 11),
           (11, Then (Some (K_return (VExt 1))) None 12),
           (12, Then (Some (K_plugin_result 0)) None 13),
           (13, Then None (Some K_console_error) 14), (8, AllElem 15),
           (14, AllElem 15), (15, Then (Some (K_plugin_load 0)) None 16),
           (18, Then (Some (K_loadData 0)) None 19), (19, AllElem 21),
           (21, Then (Some (K_ext_load 0)) None 22),
           (22,
            Then
             (Some
               (K_connectExtension 0 (VFunction (Returns (VForeign 1 True))) 0))
             None 23),
           (23, Adopt 5)],
        points =
          [\<lparr>p_id = ''baz:point'', p_receiver = ''addItem'',
              p_module = Some ''baz/main'', p_initializer = None,
              p_initialized = True,
              p_receiverFunc = VFunction (Returns (VForeign 1 True)),
              p_disposables = \<lparr>ds_items = [], ds_isDisposed = False\<rparr>\<rparr>],
        exts =
          [\<lparr>e_point = ''baz:point'', e_loader = None,
              e_module = Some ''baz/main'', e_data = Some ''baz/items.json'',
              e_initializer = None,
              e_extension = VContribution None VUndefined VUndefined,
              e_disposables = \<lparr>ds_items = [], ds_isDisposed = False\<rparr>\<rparr>,
           \<lparr>e_point = ''baz:point'', e_loader = None,
              e_module = Some ''baz/main'', e_data = None, e_initializer = None,
              e_extension = VContribution (Some 7) VUndefined VUndefined,
              e_disposables = \<lparr>ds_items = [], ds_isDisposed = False\<rparr>\<rparr>],
        plugins =
          [\<lparr>g_name = ''baz'', g_module = ''baz/main'', g_initializer = None,
              g_extensionPoints =
                Some
                 [\<lparr>pt_id = ''baz:point'', pt_receiver = ''addItem'',
                     pt_module = Some ''baz/main'', pt_initializer = None\<rparr>],
              g_extensions =
                Some
                 [\<lparr>ext_point = ''baz:point'', ext_loader = None,
                     ext_data = Some ''baz/items.json'', ext_config = None,
                     ext_module = Some ''baz/main'', ext_initializer = None\<rparr>,
                  \<lparr>ext_point = ''baz:point'', ext_loader = None,
                     ext_data = None, ext_config = Some 7,
                     ext_module = Some ''baz/main'', ext_initializer = None\<rparr>],
              g_disposables = \<lparr>ds_items = [], ds_isDisposed = False\<rparr>\<rparr>],
        allExtensionPoints = [(''baz:point'', 0)], allExtensions = [],
        availablePlugins = [], loadedPlugins = [], System_npm = [],
        global_name = [],
        trace =
          [Connecting 0 0, Import (Some ''baz/main''), Connecting 0 1,
           Import (Some ''baz/main''), Import (Some ''baz/items.json'')]\<rparr>"
  by code_simp

lemma baz_failed_eq:
  "baz_failed err =
    \<lparr>promises =
        [\<lparr>pstate = Fulfilled (VPoint 0), remaining = 0, external = False\<rparr>,
         \<lparr>pstate = Fulfilled VUndefined, remaining = 0, external = False\<rparr>,
         \<lparr>pstate = Fulfilled VUndefined, remaining = 0, external = False\<rparr>,
         \<lparr>pstate =
            Fulfilled
             (VModule [(''addItem'', VFunction (Returns (VForeign 1 True)))]),
            remaining = 0, external = True\<rparr>,
         \<lparr>pstate = Fulfilled VUndefined, remaining = 0, external = False\<rparr>,
         \<lparr>pstate = Rejected err, remaining = 0, external = False\<rparr>,
         \<lparr>pstate = Rejected err, remaining = 0, external = False\<rparr>,
         \<lparr>pstate = Rejected err, remaining = 0, external = False\<rparr>,
         \<lparr>pstate = Fulfilled VUndefined, remaining = 0, external = False\<rparr>,
         \<lparr>pstate = Pending, remaining = 0, external = True\<rparr>,
         \<lparr>pstate = Pending, remaining = 0, external = False\<rparr>,
         \<lparr>pstate = Pending, remaining = 0, external = False\<rparr>,
         \<lparr>pstate = Pending, remaining = 0, external = False\<rparr>,
         \<lparr>pstate = Pending, remaining = 0, external = False\<rparr>,
         \<lparr>pstate = Pending, remaining = 0, external = False\<rparr>,
         \<lparr>pstate = Pending, remaining = 1, external = False\<rparr>,
         \<lparr>pstate = Pending, remaining = 0, external = False\<rparr>,
         \<lparr>pstate = Fulfilled VUndefined, remaining = 0, external = False\<rparr>,
         \<lparr>pstate = Rejected err, remaining = 0, external = True\<rparr>,
         \<lparr>pstate = Rejected err, remaining = 0, external = False\<rparr>,
         \<lparr>pstate = Fulfilled VUndefined, remaining = 0, external = False\<rparr>,
         \<lparr>pstate = Rejected err, remaining = 1, external = False\<rparr>,
         \<lparr>pstate = Rejected err, remaining = 0, external = False\<rparr>,
         \<lparr>pstate = Rejected err, remaining = 0, external = False\<rparr>],
        pool =
          [(9, Then (Some (K_load 0)) None 10),
           (10, Then (Some (K_connect 0 1)) None 11),
           (11, Then (Some (K_return (VExt 1))) None 12),
           (12, Then (Some (K_plugin_result 0)) None 13),
           (13, Then None (Some K_console_error) 14), (14, AllElem 15),
           (15, Then (Some (K_plugin_load 0)) None 16)],
        points =
          [\<lparr>p_id = ''baz:point'', p_receiver = ''addItem'',
              p_module = Some ''baz/main'', p_initializer = None,
              p_initialized = True,
              p_receiverFunc = VFunction (Returns (VForeign 1 True)),
              p_disposables = \<lparr>ds_items = [], ds_isDisposed = False\<rparr>\<rparr>],
        exts =
          [\<lparr>e_point = ''baz:point'', e_loader = None,
              e_module = Some ''baz/main'', e_data = Some ''baz/items.json'',
              e_initializer = None,
              e_extension = VContribution None VUndefined VUndefined,
              e_disposables = \<lparr>ds_items = [], ds_isDisposed = False\<rparr>\<rparr>,
           \<lparr>e_point = ''baz:point'', e_loader = None,
              e_module = Some ''baz/main'', e_data = None, e_initializer = None,
              e_extension = VContribution (Some 7) VUndefined VUndefined,
              e_disposables = \<lparr>ds_items = [], ds_isDisposed = False\<rparr>\<rparr>],
        plugins =
          [\<lparr>g_name = ''baz'', g_module = ''baz/main'', g_initializer = None,
              g_extensionPoints =
                Some
                 [\<lparr>pt_id = ''baz:point'', pt_receiver = ''addItem'',
                     pt_module = Some ''baz/main'', pt_initializer = None\<rparr>],
              g_extensions =
                Some
                 [\<lparr>ext_point = ''baz:point'', ext_loader = None,
                     ext_data = Some ''baz/items.json'', ext_config = None,
                     ext_module = Some ''baz/main'', ext_initializer = None\<rparr>,
                  \<lparr>ext_point = ''baz:point'', ext_loader = None,
                     ext_data = None, ext_config = Some 7,
                     ext_module = Some ''baz/main'', ext_initializer = None\<rparr>],
              g_disposables = \<lparr>ds_items = [], ds_isDisposed = False\<rparr>\<rparr>],
        allExtensionPoints = [(''baz:point'', 0)], allExtensions = [],
        availablePlugins = [], loadedPlugins = [], System_npm = [],
        global_name = [],
        trace =
          [Connecting 0 0, Import (Some ''baz/main''), Connecting 0 1,
           Import (Some ''baz/main''), Import (Some ''baz/items.json''),
           ConsoleError err]\<rparr>"
  by (simp add: baz_failed_def baz_waiting_eq machine_defs Let_def)

lemmas baz_step_defs = baz_module_def connect_defs Extension_load_defs Extension_initialize_def
  add_if_disposable_def machine_defs Let_def truthy_def js_str_def

lemma baz_failed_trace: "last (trace (baz_failed err)) = ConsoleError err"
  by (simp add: baz_failed_eq)

lemma baz_failed_promise:
  "pstate (promises (baz_failed err) ! fst (Plugin_load 0 baz_available)) = Pending"
proof -
  have "fst (Plugin_load 0 baz_available) = 16" by code_simp
  then show ?thesis by (simp add: baz_failed_eq)
qed

lemma baz_done_trace:
  "trace (baz_done err) =
     trace (baz_failed err)
       @ [Called (Receiver 0 (VContribution (Some 7) VUndefined VUndefined))]"
  by (simp add: baz_done_def baz_failed_eq baz_step_defs)

lemma baz_done_promise:
  "pstate (promises (baz_done err) ! fst (Plugin_load 0 baz_available))
     = Fulfilled (VBoundInitialize 0)"
proof -
  have "fst (Plugin_load 0 baz_available) = 16" by code_simp
  then show ?thesis by (simp add: baz_done_def baz_failed_eq baz_step_defs)
qed

text \<open>
  Claim C8. From the empty engine, after any history of calls, settlements and
  reactions, \<open>load()\<close> of any plugin returns a promise that no later history rejects,
  whatever fails in it. The promise that \<open>_loadExtensionPoint\<close> and \<open>_loadExtension\<close>
  return for an entry is the promise of their final \<open>catch\<close>, and that \<open>catch\<close>, run
  with a rejection, passes the error to \<open>console.error\<close> and fulfils the promise of the
  entry. Every declared entry is registered before \<open>load()\<close> returns: it has created one
  extension point for each declared point and one extension for each declared extension;
  and a reaction that runs with a rejection leaves the registries and the instances as
  they are. In the plugin \<open>baz\<close>, with one point and two extensions to it, the data file of
  the first extension fails to resolve with any error \<open>err\<close>: the error is logged and the
  promise of \<open>load()\<close> is still pending; when the module is then resolved for the second
  extension, the receiver is called with the contribution of the second extension and
  the promise of \<open>load()\<close> is fulfilled.
\<close>

theorem Plugin_load_isolates_failing_entry:
  "pstate (promises (run later (snd (Plugin_load g (run acts (init npm gn)))))
            ! fst (Plugin_load g (run acts (init npm gn)))) \<noteq> Rejected err
   \<and> snd (last (pool (snd (Plugin_loadExtensionPoint g i c st))))
       = Then None (Some K_console_error) (fst (Plugin_loadExtensionPoint g i c st))
   \<and> snd (last (pool (snd (Plugin_loadExtension g i x st))))
       = Then None (Some K_console_error) (fst (Plugin_loadExtension g i x st))
   \<and> run_reaction (Then None (Some K_console_error) d) (Rejected err) st
       = settle d (Fulfilled VUndefined) (emit (ConsoleError err) st)
   \<and> length (points (snd (Plugin_load g st)))
       = length (points st)
         + (case g_extensionPoints (plugins st ! g) of None \<Rightarrow> 0 | Some l \<Rightarrow> length l)
   \<and> length (exts (snd (Plugin_load g st)))
       = length (exts st)
         + (case g_extensions (plugins st ! g) of None \<Rightarrow> 0 | Some l \<Rightarrow> length l)
   \<and> registry_view (run_reaction r (Rejected err) st) = registry_view st
   \<and> last (trace (baz_failed err)) = ConsoleError err
   \<and> pstate (promises (baz_failed err) ! fst (Plugin_load 0 baz_available)) = Pending
   \<and> trace (baz_done err)
       = trace (baz_failed err)
           @ [Called (Receiver 0 (VContribution (Some 7) VUndefined VUndefined))]
   \<and> pstate (promises (baz_done err) ! fst (Plugin_load 0 baz_available))
       = Fulfilled (VBoundInitialize 0)"
  by (intro conjI)
     (rule Plugin_load_never_rejected entry_catch catch_logs sizes_Plugin_load
        view_run_reaction baz_failed_trace baz_failed_promise baz_done_trace
        baz_done_promise)+
end
